theory Spec2Isabelle
  imports Main
begin

section \<open>Halo setup of a row-partitioned sparse matrix (SetupHalo.cpp)\<close>

text \<open>
  The development follows the MPI branch of \<open>SetupHalo\<close> in its production build
  (neither \<open>HPCG_NOMPI\<close> nor \<open>DEBUG\<close> defined). The assertions of the \<open>DEBUG\<close> build are
  modelled separately, as a predicate on the two dependency lists.

  Index types. Modelled from the spec: \<open>local_int_t\<close> and \<open>global_int_t\<close> are typedefs
  declared outside \<open>SetupHalo.cpp\<close>; the specification asks of the global ids a signed
  integer type wide enough for the total row count. Values of both types are modelled
  as \<open>int\<close>; counters that start at zero and are only incremented, and container sizes,
  are \<open>nat\<close>. No count of the function exceeds the number of stored entries of the local
  rows, and the model does not let arithmetic on \<open>local_int_t\<close> overflow. The one place
  where a global id is converted to the local index type is the key of
  \<open>externalToLocalMap\<close>, which is declared \<open>std::map<local_int_t, local_int_t>\<close> and
  indexed with \<open>global_int_t\<close> values. The model keeps that conversion as its parameter
  \<open>narrow\<close>: the identity when the key type holds every id, as in the data model of
  the specification, where the external index map is keyed by the global column id, and
  \<open>wrap32\<close> when \<open>local_int_t\<close> is a 32-bit integer and \<open>global_int_t\<close> is wider.

  Arrays. The arrays of the matrix are lists, read with \<open>!\<close> and written with list
  update. The source accesses them without checks, and an access beyond the end of an
  array is undefined there; the model gives such an access no meaning either (the read
  is an unspecified value, the write is dropped). All accesses are within bounds on the
  inputs that \<open>well_shaped\<close> describes; the arrays that \<open>SetupHalo\<close> allocates itself are
  always written within bounds, and every cell of them is written.
\<close>

subsection \<open>Ordered containers\<close>

text \<open>
  \<open>std::set<global_int_t>\<close>: a strictly ascending list; \<open>set_insert\<close> is \<open>insert\<close>, which
  leaves the set alone when the element is present.
\<close>

fun set_insert :: "int \<Rightarrow> int list \<Rightarrow> int list" where
  "set_insert x [] = [x]"
| "set_insert x (y # ys) =
     (if x < y then x # y # ys
      else if x = y then y # ys
      else y # set_insert x ys)"

text \<open>
  \<open>std::map<int, V>\<close>: an association list, ascending in the key. \<open>m[k]\<close> finds the
  entry of \<open>k\<close> and makes one holding the value-initialised \<open>d\<close> when there is none:
  \<open>map_at d k m\<close> is the value \<open>m[k]\<close> denotes, \<open>map_modify d k f m\<close> the map after
  \<open>m[k] = f (m[k])\<close>, and \<open>map_touch d k m\<close> the map after a mere read of \<open>m[k]\<close>.
\<close>

fun map_at :: "'v \<Rightarrow> int \<Rightarrow> (int \<times> 'v) list \<Rightarrow> 'v" where
  "map_at d k [] = d"
| "map_at d k ((k', v) # m) = (if k = k' then v else map_at d k m)"

fun map_modify :: "'v \<Rightarrow> int \<Rightarrow> ('v \<Rightarrow> 'v) \<Rightarrow> (int \<times> 'v) list \<Rightarrow> (int \<times> 'v) list" where
  "map_modify d k f [] = [(k, f d)]"
| "map_modify d k f ((k', v) # m) =
     (if k < k' then (k, f d) # (k', v) # m
      else if k = k' then (k', f v) # m
      else (k', v) # map_modify d k f m)"

definition map_touch :: "'v \<Rightarrow> int \<Rightarrow> (int \<times> 'v) list \<Rightarrow> (int \<times> 'v) list" where
  "map_touch d k m = map_modify d k (\<lambda>v. v) m"

type_synonym rank_sets = "(int \<times> int list) list"

text \<open>
  Modelled from the spec: the declaration of \<open>SparseMatrix\<close> is not part of
  \<open>SetupHalo.cpp\<close>. \<open>globalToLocalMap\<close> is the keyed OwnershipMap of the specification
  (a map from the global ids of the owned rows to local row indices), read in the source
  with \<open>operator[]\<close>: for a key that is absent the read yields the value-initialised
  index 0 and stores it under that key.
\<close>

definition g2l_at :: "(int \<rightharpoonup> int) \<Rightarrow> int \<Rightarrow> int" where
  "g2l_at m k = (case m k of None \<Rightarrow> 0 | Some v \<Rightarrow> v)"

definition g2l_touch :: "(int \<rightharpoonup> int) \<Rightarrow> int \<Rightarrow> (int \<rightharpoonup> int)" where
  "g2l_touch m k = (case m k of None \<Rightarrow> m(k \<mapsto> 0) | Some v \<Rightarrow> m)"

subsection \<open>The matrix and the local variables of SetupHalo\<close>

typedecl double

record Geometry =
  rank :: int

text \<open>
  The fields of \<open>SparseMatrix\<close> that \<open>SetupHalo\<close> reads or writes. An array cell is
  \<open>None\<close> as long as nothing has been stored in it (\<open>new T[n]\<close> leaves its cells
  uninitialised).
\<close>

record SparseMatrix =
  localNumberOfRows :: int
  nonzerosInRow :: "int list"
  mtxIndG :: "int list list"
  mtxIndL :: "int list list"
  localToGlobalMap :: "int list"
  globalToLocalMap :: "int \<rightharpoonup> int"
  numberOfExternalValues :: int
  localNumberOfColumns :: int
  numberOfSendNeighbors :: int
  totalToBeSent :: int
  elementsToSend :: "int option list"
  neighbors :: "int option list"
  receiveLength :: "int option list"
  sendLength :: "int option list"
  sendBuffer :: "double option list"

text \<open>
  The state of a run: the matrix together with the local variables of the function.
  The arrays \<open>sendBuffer\<close>, \<open>elementsToSend\<close>, \<open>neighbors\<close>, \<open>receiveLength\<close> and
  \<open>sendLength\<close> and the count \<open>totalToBeSent\<close> are locals of the source that are handed
  to the fields of the same name in lines 158 to 163; the model keeps them in those
  fields from their allocation on.
\<close>

record halo_run = SparseMatrix +
  sendList :: rank_sets
  receiveList :: rank_sets
  externalToLocalMap :: "(int \<times> int) list"
  totalToBeReceived :: int
  neighborCount :: nat
  receiveEntryCount :: nat
  sendEntryCount :: nat

subsection \<open>Dependency scan (lines 76 to 90)\<close>

text \<open>
  Modelled from the spec: \<open>getRankOfMatrixRow\<close> is defined outside \<open>SetupHalo.cpp\<close>. It
  is the OwnershipResolver of the specification, a pure function from a global row id to
  the owning rank, given the partition geometry; it is a parameter of the model.
\<close>

definition scan_entry :: "int \<Rightarrow> int \<Rightarrow> int \<Rightarrow> int \<Rightarrow> halo_run \<Rightarrow> halo_run" where
  "scan_entry myRank currentGlobalRow curIndex rankIdOfColumnEntry s =
     (if myRank \<noteq> rankIdOfColumnEntry
      then s\<lparr>receiveList := map_modify [] rankIdOfColumnEntry (set_insert curIndex) (receiveList s),
             sendList := map_modify [] rankIdOfColumnEntry (set_insert currentGlobalRow) (sendList s)\<rparr>
      else s)"

definition scan_row :: "(Geometry \<Rightarrow> int \<Rightarrow> int) \<Rightarrow> Geometry \<Rightarrow> nat \<Rightarrow> halo_run \<Rightarrow> halo_run" where
  "scan_row getRankOfMatrixRow geom i s =
     (let currentGlobalRow = localToGlobalMap s ! i in
      fold (\<lambda>j s'.
              let curIndex = mtxIndG s' ! i ! j;
                  rankIdOfColumnEntry = getRankOfMatrixRow geom curIndex
              in scan_entry (rank geom) currentGlobalRow curIndex rankIdOfColumnEntry s')
        [0..<nat (nonzerosInRow s ! i)] s)"

definition scan_rows :: "(Geometry \<Rightarrow> int \<Rightarrow> int) \<Rightarrow> Geometry \<Rightarrow> halo_run \<Rightarrow> halo_run" where
  "scan_rows getRankOfMatrixRow geom s =
     fold (scan_row getRankOfMatrixRow geom) [0..<nat (localNumberOfRows s)] s"

subsection \<open>Counting and allocation (lines 93 to 122)\<close>

definition count_entries :: "rank_sets \<Rightarrow> nat" where
  "count_entries lst = fold (\<lambda>curNeighbor total. total + length (snd curNeighbor)) lst 0"

definition count_and_allocate :: "halo_run \<Rightarrow> halo_run" where
  "count_and_allocate s =
     (let sent = count_entries (sendList s);
          received = count_entries (receiveList s)
      in s\<lparr>totalToBeSent := int sent,
            totalToBeReceived := int received,
            sendBuffer := replicate sent None,
            elementsToSend := replicate sent None,
            neighbors := replicate (length (sendList s)) None,
            receiveLength := replicate (length (receiveList s)) None,
            sendLength := replicate (length (sendList s)) None,
            neighborCount := 0,
            receiveEntryCount := 0,
            sendEntryCount := 0\<rparr>)"

text \<open>
  The assertions of the \<open>DEBUG\<close> build (lines 105 to 111), as a predicate on the two
  lists: equal totals, equally many neighbours, and for every receive neighbour a send
  entry of the same size.
\<close>

definition debug_assertions :: "rank_sets \<Rightarrow> rank_sets \<Rightarrow> bool" where
  "debug_assertions sendL receiveL \<longleftrightarrow>
     count_entries sendL = count_entries receiveL \<and>
     length sendL = length receiveL \<and>
     list_all (\<lambda>curNeighbor.
        fst curNeighbor \<in> set (map fst sendL) \<and>
        length (map_at [] (fst curNeighbor) sendL) = length (map_at [] (fst curNeighbor) receiveL))
       receiveL"

subsection \<open>Building the plan (lines 123 to 135)\<close>

definition assign_external :: "(int \<Rightarrow> int) \<Rightarrow> int \<Rightarrow> halo_run \<Rightarrow> halo_run" where
  "assign_external narrow i s =
     s\<lparr>externalToLocalMap :=
          map_modify 0 (narrow i) (\<lambda>_. localNumberOfRows s + int (receiveEntryCount s))
            (externalToLocalMap s),
       receiveEntryCount := Suc (receiveEntryCount s)\<rparr>"

definition store_send_element :: "int \<Rightarrow> halo_run \<Rightarrow> halo_run" where
  "store_send_element i s =
     s\<lparr>elementsToSend := (elementsToSend s)[sendEntryCount s := Some (g2l_at (globalToLocalMap s) i)],
       globalToLocalMap := g2l_touch (globalToLocalMap s) i,
       sendEntryCount := Suc (sendEntryCount s)\<rparr>"

text \<open>
  One round of the loop over \<open>receiveList\<close>. \<open>neighborId\<close> is a key of \<open>receiveList\<close>, so
  \<open>receiveList[neighborId]\<close> finds its entry; \<open>sendList[neighborId]\<close> makes an empty
  entry when \<open>sendList\<close> has none.
\<close>

definition visit_neighbor :: "(int \<Rightarrow> int) \<Rightarrow> int \<Rightarrow> halo_run \<Rightarrow> halo_run" where
  "visit_neighbor narrow neighborId s =
     (let s1 = s\<lparr>neighbors := (neighbors s)[neighborCount s := Some neighborId]\<rparr>;
          s2 = s1\<lparr>receiveLength := (receiveLength s1)
                  [neighborCount s1 := Some (int (length (map_at [] neighborId (receiveList s1))))]\<rparr>;
          s3 = s2\<lparr>sendLength := (sendLength s2)
                  [neighborCount s2 := Some (int (length (map_at [] neighborId (sendList s2))))],
                sendList := map_touch [] neighborId (sendList s2)\<rparr>;
          s4 = fold (assign_external narrow) (map_at [] neighborId (receiveList s3)) s3;
          s5 = fold store_send_element (map_at [] neighborId (sendList s4)) s4
      in s5\<lparr>neighborCount := Suc (neighborCount s5)\<rparr>)"

definition build_plan :: "(int \<Rightarrow> int) \<Rightarrow> halo_run \<Rightarrow> halo_run" where
  "build_plan narrow s = fold (visit_neighbor narrow) (map fst (receiveList s)) s"

subsection \<open>Rewriting the column indices (lines 141 to 152)\<close>

definition rewrite_entry ::
  "(int \<Rightarrow> int) \<Rightarrow> (Geometry \<Rightarrow> int \<Rightarrow> int) \<Rightarrow> Geometry \<Rightarrow> nat \<Rightarrow> nat \<Rightarrow> halo_run \<Rightarrow> halo_run" where
  "rewrite_entry narrow getRankOfMatrixRow geom i j s =
     (let curIndex = mtxIndG s ! i ! j;
          rankIdOfColumnEntry = getRankOfMatrixRow geom curIndex
      in if rank geom = rankIdOfColumnEntry
         then s\<lparr>mtxIndL := (mtxIndL s)[i := (mtxIndL s ! i)[j := g2l_at (globalToLocalMap s) curIndex]],
                globalToLocalMap := g2l_touch (globalToLocalMap s) curIndex\<rparr>
         else s\<lparr>mtxIndL := (mtxIndL s)[i := (mtxIndL s ! i)
                    [j := map_at 0 (narrow curIndex) (externalToLocalMap s)]],
                externalToLocalMap := map_touch 0 (narrow curIndex) (externalToLocalMap s)\<rparr>)"

definition rewrite_row ::
  "(int \<Rightarrow> int) \<Rightarrow> (Geometry \<Rightarrow> int \<Rightarrow> int) \<Rightarrow> Geometry \<Rightarrow> nat \<Rightarrow> halo_run \<Rightarrow> halo_run" where
  "rewrite_row narrow getRankOfMatrixRow geom i s =
     fold (rewrite_entry narrow getRankOfMatrixRow geom i) [0..<nat (nonzerosInRow s ! i)] s"

definition rewrite_rows ::
  "(int \<Rightarrow> int) \<Rightarrow> (Geometry \<Rightarrow> int \<Rightarrow> int) \<Rightarrow> Geometry \<Rightarrow> halo_run \<Rightarrow> halo_run" where
  "rewrite_rows narrow getRankOfMatrixRow geom s =
     fold (rewrite_row narrow getRankOfMatrixRow geom) [0..<nat (localNumberOfRows s)] s"

subsection \<open>The whole function\<close>

definition store_contents :: "halo_run \<Rightarrow> halo_run" where
  "store_contents s =
     (let s1 = s\<lparr>numberOfExternalValues := int (length (externalToLocalMap s))\<rparr>;
          s2 = s1\<lparr>localNumberOfColumns := localNumberOfRows s1 + numberOfExternalValues s1\<rparr>
      in s2\<lparr>numberOfSendNeighbors := int (length (sendList s2))\<rparr>)"

text \<open>
  Entry into the function: the matrix as passed, the two dependency lists and
  \<open>externalToLocalMap\<close> empty, the counters zero.
\<close>

definition enter :: "SparseMatrix \<Rightarrow> halo_run" where
  "enter A = SparseMatrix.extend A
     (halo_run.fields [] [] [] 0 0 0 0)"

definition run_SetupHalo ::
  "(int \<Rightarrow> int) \<Rightarrow> (Geometry \<Rightarrow> int \<Rightarrow> int) \<Rightarrow> Geometry \<Rightarrow> SparseMatrix \<Rightarrow> halo_run" where
  "run_SetupHalo narrow getRankOfMatrixRow geom A =
     store_contents
       (rewrite_rows narrow getRankOfMatrixRow geom
          (build_plan narrow
             (count_and_allocate
                (scan_rows getRankOfMatrixRow geom (enter A)))))"

definition SetupHalo ::
  "(int \<Rightarrow> int) \<Rightarrow> (Geometry \<Rightarrow> int \<Rightarrow> int) \<Rightarrow> Geometry \<Rightarrow> SparseMatrix \<Rightarrow> SparseMatrix" where
  "SetupHalo narrow getRankOfMatrixRow geom A =
     SparseMatrix.truncate (run_SetupHalo narrow getRankOfMatrixRow geom A)"

subsection \<open>The references of the local rows\<close>

text \<open>
  The pairs (global id of the row, global column id) that the two loops over the matrix
  visit, in the order of the visit: rows ascending, within a row the stored order.
\<close>

definition row_references :: "'a SparseMatrix_scheme \<Rightarrow> nat \<Rightarrow> (int \<times> int) list" where
  "row_references A i =
     map (\<lambda>j. (localToGlobalMap A ! i, mtxIndG A ! i ! j)) [0..<nat (nonzerosInRow A ! i)]"

definition references :: "'a SparseMatrix_scheme \<Rightarrow> (int \<times> int) list" where
  "references A = concat (map (row_references A) [0..<nat (localNumberOfRows A)])"

text \<open>The references whose column belongs to another rank.\<close>

definition remote_references ::
  "(Geometry \<Rightarrow> int \<Rightarrow> int) \<Rightarrow> Geometry \<Rightarrow> 'a SparseMatrix_scheme \<Rightarrow> (int \<times> int) list" where
  "remote_references getRankOfMatrixRow geom A =
     filter (\<lambda>p. getRankOfMatrixRow geom (snd p) \<noteq> rank geom) (references A)"

text \<open>
  What one visit does to a dependency list: the entry of the owning rank \<open>key p\<close>
  receives \<open>elem p\<close>, unless the owner is the local rank.
\<close>

definition collect ::
  "int \<Rightarrow> ('p \<Rightarrow> int) \<Rightarrow> ('p \<Rightarrow> int) \<Rightarrow> 'p \<Rightarrow> rank_sets \<Rightarrow> rank_sets" where
  "collect myRank key elem p m =
     (if myRank \<noteq> key p then map_modify [] (key p) (set_insert (elem p)) m else m)"

subsection \<open>Sequences of stores\<close>

text \<open>
  Storing the elements of a list in consecutive cells of an array, from cell \<open>c\<close> on,
  and binding the keys of a list to consecutive indices from \<open>n + c\<close> on: what the
  two inner loops of lines 128 to 134 do to \<open>elementsToSend\<close> and to
  \<open>externalToLocalMap\<close>.
\<close>

fun store_from :: "'a option list \<Rightarrow> nat \<Rightarrow> 'a list \<Rightarrow> 'a option list" where
  "store_from arr c [] = arr"
| "store_from arr c (x # xs) = store_from (arr[c := Some x]) (Suc c) xs"

fun assign_from :: "(int \<Rightarrow> int) \<Rightarrow> int \<Rightarrow> nat \<Rightarrow> int list \<Rightarrow> (int \<times> int) list \<Rightarrow> (int \<times> int) list" where
  "assign_from narrow n c [] m = m"
| "assign_from narrow n c (g # gs) m =
     assign_from narrow n (Suc c) gs (map_modify 0 (narrow g) (\<lambda>_. n + int c) m)"

text \<open>
  The std::map and std::set invariants of a dependency list: keys strictly ascending,
  every set strictly ascending. After the scan no set is empty.
\<close>

definition wf_sets :: "rank_sets \<Rightarrow> bool" where
  "wf_sets m \<longleftrightarrow>
     sorted_wrt (<) (map fst m) \<and> list_all (\<lambda>p. sorted_wrt (<) (snd p) \<and> snd p \<noteq> []) m"

text \<open>The dependency lists the scan builds from the references, starting from empty lists.\<close>

definition receive_sets ::
  "(Geometry \<Rightarrow> int \<Rightarrow> int) \<Rightarrow> Geometry \<Rightarrow> 'a SparseMatrix_scheme \<Rightarrow> rank_sets" where
  "receive_sets getRankOfMatrixRow geom A =
     fold (collect (rank geom) (\<lambda>p. getRankOfMatrixRow geom (snd p)) snd) (references A) []"

definition send_sets ::
  "(Geometry \<Rightarrow> int \<Rightarrow> int) \<Rightarrow> Geometry \<Rightarrow> 'a SparseMatrix_scheme \<Rightarrow> rank_sets" where
  "send_sets getRankOfMatrixRow geom A =
     fold (collect (rank geom) (\<lambda>p. getRankOfMatrixRow geom (snd p)) fst) (references A) []"

text \<open>
  The positions \<open>(i, j)\<close> of the stored entries, in the order of the loops, and the local
  index that lines 145 to 150 store for a column id \<open>c\<close>, given the two maps.
\<close>

definition cells :: "'a SparseMatrix_scheme \<Rightarrow> (nat \<times> nat) list" where
  "cells A =
     concat (map (\<lambda>i. map (Pair i) [0..<nat (nonzerosInRow A ! i)]) [0..<nat (localNumberOfRows A)])"

definition local_index ::
  "(int \<Rightarrow> int) \<Rightarrow> (Geometry \<Rightarrow> int \<Rightarrow> int) \<Rightarrow> Geometry \<Rightarrow> (int \<rightharpoonup> int) \<Rightarrow> (int \<times> int) list \<Rightarrow> int \<Rightarrow> int" where
  "local_index narrow getRankOfMatrixRow geom g2l ext c =
     (if rank geom = getRankOfMatrixRow geom c then g2l_at g2l c else map_at 0 (narrow c) ext)"

text \<open>
  What a read \<open>A.globalToLocalMap[c]\<close> or \<open>externalToLocalMap[c]\<close> of the rewriting loop
  leaves behind in the map it reads.
\<close>

definition touch_g2l ::
  "(Geometry \<Rightarrow> int \<Rightarrow> int) \<Rightarrow> Geometry \<Rightarrow> int \<Rightarrow> (int \<rightharpoonup> int) \<Rightarrow> (int \<rightharpoonup> int)" where
  "touch_g2l getRankOfMatrixRow geom c g =
     (if rank geom = getRankOfMatrixRow geom c then g2l_touch g c else g)"

definition touch_ext ::
  "(int \<Rightarrow> int) \<Rightarrow> (Geometry \<Rightarrow> int \<Rightarrow> int) \<Rightarrow> Geometry \<Rightarrow> int \<Rightarrow> (int \<times> int) list \<Rightarrow> (int \<times> int) list" where
  "touch_ext narrow getRankOfMatrixRow geom c e =
     (if rank geom = getRankOfMatrixRow geom c then e else map_touch 0 (narrow c) e)"

subsection \<open>Notions used in the statements\<close>

text \<open>The ranks and the column ids that the local rows reference on other ranks.\<close>

definition neighbor_ranks ::
  "(Geometry \<Rightarrow> int \<Rightarrow> int) \<Rightarrow> Geometry \<Rightarrow> 'a SparseMatrix_scheme \<Rightarrow> int set" where
  "neighbor_ranks getRankOfMatrixRow geom A =
     set (map (\<lambda>p. getRankOfMatrixRow geom (snd p)) (remote_references getRankOfMatrixRow geom A))"

definition remote_columns ::
  "(Geometry \<Rightarrow> int \<Rightarrow> int) \<Rightarrow> Geometry \<Rightarrow> 'a SparseMatrix_scheme \<Rightarrow> int set" where
  "remote_columns getRankOfMatrixRow geom A = set (map snd (remote_references getRankOfMatrixRow geom A))"

text \<open>
  A malformed partition: the resolver names the local rank as the owner of a referenced
  column id that \<open>globalToLocalMap\<close> does not hold.
\<close>

definition malformed_partition ::
  "(Geometry \<Rightarrow> int \<Rightarrow> int) \<Rightarrow> Geometry \<Rightarrow> 'a SparseMatrix_scheme \<Rightarrow> bool" where
  "malformed_partition getRankOfMatrixRow geom A \<longleftrightarrow>
     list_ex (\<lambda>p. getRankOfMatrixRow geom (snd p) = rank geom \<and> globalToLocalMap A (snd p) = None)
       (references A)"

text \<open>
  Valid distributed inputs. A matrix is well shaped when its arrays have the sizes the
  loops assume. A process owns its rows when the resolver names its rank for each of
  them and \<open>globalToLocalMap\<close> is the inverse of \<open>localToGlobalMap\<close>. A system is a list
  of processes, ranks \<open>0, 1, \<dots>\<close>; it is valid when there are at least two processes,
  each well shaped and owning its rows, every referenced column is a row of the process
  the resolver names, and the global pattern is structurally symmetric.
\<close>

definition well_shaped :: "'a SparseMatrix_scheme \<Rightarrow> bool" where
  "well_shaped A \<longleftrightarrow>
     0 \<le> localNumberOfRows A \<and>
     length (nonzerosInRow A) = nat (localNumberOfRows A) \<and>
     length (mtxIndG A) = nat (localNumberOfRows A) \<and>
     length (mtxIndL A) = nat (localNumberOfRows A) \<and>
     length (localToGlobalMap A) = nat (localNumberOfRows A) \<and>
     list_all (\<lambda>i. 0 \<le> nonzerosInRow A ! i \<and>
                   nat (nonzerosInRow A ! i) \<le> length (mtxIndG A ! i) \<and>
                   nat (nonzerosInRow A ! i) \<le> length (mtxIndL A ! i))
       [0..<nat (localNumberOfRows A)]"

definition owns_rows ::
  "(Geometry \<Rightarrow> int \<Rightarrow> int) \<Rightarrow> Geometry \<Rightarrow> 'a SparseMatrix_scheme \<Rightarrow> bool" where
  "owns_rows getRankOfMatrixRow geom A \<longleftrightarrow>
     distinct (localToGlobalMap A) \<and>
     list_all (\<lambda>i. getRankOfMatrixRow geom (localToGlobalMap A ! i) = rank geom \<and>
                   globalToLocalMap A (localToGlobalMap A ! i) = Some (int i))
       [0..<nat (localNumberOfRows A)]"

definition structurally_symmetric :: "(int \<times> int) list \<Rightarrow> bool" where
  "structurally_symmetric pattern \<longleftrightarrow> list_all (\<lambda>p. (snd p, fst p) \<in> set pattern) pattern"

definition valid_system ::
  "(Geometry \<Rightarrow> int \<Rightarrow> int) \<Rightarrow> (Geometry \<times> SparseMatrix) list \<Rightarrow> bool" where
  "valid_system getRankOfMatrixRow procs \<longleftrightarrow>
     2 \<le> length procs \<and>
     map (\<lambda>q. rank (fst q)) procs = map int [0..<length procs] \<and>
     list_all (\<lambda>q. well_shaped (snd q) \<and> owns_rows getRankOfMatrixRow (fst q) (snd q)) procs \<and>
     list_all (\<lambda>q. list_all (\<lambda>p.
         list_ex (\<lambda>q'. rank (fst q') = getRankOfMatrixRow (fst q) (snd p) \<and>
                        snd p \<in> set (localToGlobalMap (snd q'))) procs)
       (references (snd q))) procs \<and>
     structurally_symmetric (concat (map (\<lambda>q. references (snd q)) procs))"

subsection \<open>Sample inputs\<close>

text \<open>
  Two processes and three rows: rank 0 owns row 0, rank 1 owns rows 1 and 2. Row 0
  references the columns 0, 1 and 2; rows 1 and 2 reference column 0 and themselves.
\<close>

definition fan_owner :: "Geometry \<Rightarrow> int \<Rightarrow> int" where
  "fan_owner geom g = (if g = 0 then 0 else 1)"

definition blank :: SparseMatrix where
  "blank = \<lparr>localNumberOfRows = 0, nonzerosInRow = [], mtxIndG = [], mtxIndL = [],
     localToGlobalMap = [], globalToLocalMap = Map.empty,
     numberOfExternalValues = 0, localNumberOfColumns = 0, numberOfSendNeighbors = 0,
     totalToBeSent = 0, elementsToSend = [], neighbors = [], receiveLength = [],
     sendLength = [], sendBuffer = []\<rparr>"

definition fan_rank0 :: SparseMatrix where
  "fan_rank0 = blank\<lparr>localNumberOfRows := 1, nonzerosInRow := [3], mtxIndG := [[0, 1, 2]],
     mtxIndL := [[0, 0, 0]], localToGlobalMap := [0], globalToLocalMap := [0 \<mapsto> 0]\<rparr>"

definition fan_rank1 :: SparseMatrix where
  "fan_rank1 = blank\<lparr>localNumberOfRows := 2, nonzerosInRow := [2, 2], mtxIndG := [[0, 1], [0, 2]],
     mtxIndL := [[0, 0], [0, 0]], localToGlobalMap := [1, 2],
     globalToLocalMap := [1 \<mapsto> 0, 2 \<mapsto> 1]\<rparr>"

definition fan_system :: "(Geometry \<times> SparseMatrix) list" where
  "fan_system = [(\<lparr>rank = 0\<rparr>, fan_rank0), (\<lparr>rank = 1\<rparr>, fan_rank1)]"

text \<open>
  The key conversion when \<open>local_int_t\<close> is a 32-bit two's complement integer and
  \<open>global_int_t\<close> is wider (\<open>int\<close> and \<open>long long\<close>, the usual choice for the two
  typedefs): the value is reduced modulo \<open>2^32\<close> into the range of \<open>int\<close>. And the
  sample system with the global id 2 replaced by \<open>2^32 + 1\<close>, an id that a 64-bit
  \<open>global_int_t\<close> holds and whose key is that of id 1.
\<close>

definition wrap32 :: "int \<Rightarrow> int" where
  "wrap32 g = (g + 2147483648) mod 4294967296 - 2147483648"

definition big_rank0 :: SparseMatrix where
  "big_rank0 = blank\<lparr>localNumberOfRows := 1, nonzerosInRow := [3],
     mtxIndG := [[0, 1, 4294967297]], mtxIndL := [[0, 0, 0]], localToGlobalMap := [0],
     globalToLocalMap := [0 \<mapsto> 0]\<rparr>"

definition big_rank1 :: SparseMatrix where
  "big_rank1 = blank\<lparr>localNumberOfRows := 2, nonzerosInRow := [2, 2],
     mtxIndG := [[0, 1], [0, 4294967297]], mtxIndL := [[0, 0], [0, 0]],
     localToGlobalMap := [1, 4294967297],
     globalToLocalMap := [1 \<mapsto> 0, 4294967297 \<mapsto> 1]\<rparr>"

definition big_system :: "(Geometry \<times> SparseMatrix) list" where
  "big_system = [(\<lparr>rank = 0\<rparr>, big_rank0), (\<lparr>rank = 1\<rparr>, big_rank1)]"

text \<open>
  One process owning two coupled rows, and the same process with a row that references
  column 7, which the resolver assigns to rank 0 although no row has that id.
\<close>

definition solo_owner :: "Geometry \<Rightarrow> int \<Rightarrow> int" where
  "solo_owner geom g = 0"

definition solo_matrix :: SparseMatrix where
  "solo_matrix = blank\<lparr>localNumberOfRows := 2, nonzerosInRow := [2, 2], mtxIndG := [[0, 1], [0, 1]],
     mtxIndL := [[5, 5], [5, 5]], localToGlobalMap := [0, 1],
     globalToLocalMap := [0 \<mapsto> 0, 1 \<mapsto> 1]\<rparr>"

definition stray_matrix :: SparseMatrix where
  "stray_matrix = blank\<lparr>localNumberOfRows := 2, nonzerosInRow := [2, 3], mtxIndG := [[0, 1], [0, 1, 7]],
     mtxIndL := [[5, 5], [5, 5, 5]], localToGlobalMap := [0, 1],
     globalToLocalMap := [0 \<mapsto> 0, 1 \<mapsto> 1]\<rparr>"

section \<open>Properties of the containers and of the loops\<close>

subsection \<open>Sets and maps\<close>

lemma set_set_insert: "set (set_insert x xs) = insert x (set xs)"
  by (induction xs) auto

lemma sorted_set_insert: "sorted_wrt (<) xs \<Longrightarrow> sorted_wrt (<) (set_insert x xs)"
  by (induction xs) (auto simp: set_set_insert)

lemma set_insert_not_Nil: "set_insert x xs \<noteq> []"
  by (cases xs) auto

lemma keys_map_modify: "fst ` set (map_modify d k f m) = insert k (fst ` set m)"
proof (induction m)
  case Nil
  show ?case by simp
next
  case (Cons p m)
  then show ?case by (cases p) (simp add: insert_commute)
qed

lemma sorted_keys_map_modify:
  "sorted_wrt (<) (map fst m) \<Longrightarrow> sorted_wrt (<) (map fst (map_modify d k f m))"
proof (induction m)
  case Nil
  then show ?case by simp
next
  case (Cons p m)
  obtain a v where p: "p = (a, v)" by (cases p)
  from Cons.prems p have lt: "\<forall>x\<in>fst ` set m. a < x" and sm: "sorted_wrt (<) (map fst m)"
    by auto
  show ?case
  proof (cases "k < a")
    case True
    with lt sm p show ?thesis by auto
  next
    case False
    show ?thesis
    proof (cases "k = a")
      case True
      with lt sm p show ?thesis by auto
    next
      case neq: False
      with False have ak: "a < k" by simp
      have "\<forall>x\<in>fst ` set (map_modify d k f m). a < x"
        using lt ak by (simp add: keys_map_modify)
      with Cons.IH [OF sm] p False neq show ?thesis by simp
    qed
  qed
qed

lemma map_at_absent: "k \<notin> fst ` set m \<Longrightarrow> map_at d k m = d"
  by (induction m) auto

lemma map_at_map_modify:
  "sorted_wrt (<) (map fst m) \<Longrightarrow>
   map_at d k' (map_modify d k f m) = (if k' = k then f (map_at d k m) else map_at d k' m)"
proof (induction m)
  case Nil
  then show ?case by simp
next
  case (Cons p m)
  obtain a v where p: "p = (a, v)" by (cases p)
  show ?case
  proof (cases "k < a")
    case True
    with Cons.prems p have "k \<notin> fst ` set (p # m)" by auto
    then have "map_at d k (p # m) = d" by (rule map_at_absent)
    with True p show ?thesis by simp
  next
    case False
    with Cons p show ?thesis by auto
  qed
qed

lemma map_modify_present:
  "sorted_wrt (<) (map fst m) \<Longrightarrow> k \<in> fst ` set m \<Longrightarrow>
   map fst (map_modify d k f m) = map fst m"
  by (induction m) fastforce+

lemma map_touch_present:
  "sorted_wrt (<) (map fst m) \<Longrightarrow> k \<in> fst ` set m \<Longrightarrow> map_touch d k m = m"
  unfolding map_touch_def by (induction m) fastforce+

lemma length_map_modify:
  "sorted_wrt (<) (map fst m) \<Longrightarrow>
   length (map_modify d k f m) = (if k \<in> fst ` set m then length m else Suc (length m))"
  by (induction m) fastforce+

lemma values_map_modify:
  "(a, v) \<in> set (map_modify d k f m) \<Longrightarrow>
   (a, v) \<in> set m \<or> (a = k \<and> (v = f d \<or> (\<exists>w. (k, w) \<in> set m \<and> v = f w)))"
  by (induction m) (auto split: if_splits)

lemma map_at_member:
  "sorted_wrt (<) (map fst m) \<Longrightarrow> (k, v) \<in> set m \<Longrightarrow> map_at d k m = v"
  by (induction m) (auto simp: rev_image_eqI)


subsection \<open>The effect of collecting references\<close>

lemma wf_sets_collect: "wf_sets m \<Longrightarrow> wf_sets (collect r key elem p m)"
  unfolding wf_sets_def collect_def list_all_iff
  by (auto simp: sorted_keys_map_modify sorted_set_insert set_insert_not_Nil
      dest!: values_map_modify)

lemma wf_sets_fold_collect: "wf_sets m \<Longrightarrow> wf_sets (fold (collect r key elem) ps m)"
  by (induction ps arbitrary: m) (auto simp: wf_sets_collect)

lemma keys_collect:
  "fst ` set (collect r key elem p m) = fst ` set m \<union> (if r \<noteq> key p then {key p} else {})"
  by (simp add: collect_def keys_map_modify)

lemma keys_fold_collect:
  "fst ` set (fold (collect r key elem) ps m) = fst ` set m \<union> {k \<in> key ` set ps. k \<noteq> r}"
  by (induction ps arbitrary: m) (auto simp: keys_collect)

lemma map_at_collect:
  "wf_sets m \<Longrightarrow>
   set (map_at [] k (collect r key elem p m)) =
   set (map_at [] k m) \<union> (if key p = k \<and> k \<noteq> r then {elem p} else {})"
  by (auto simp: collect_def wf_sets_def map_at_map_modify set_set_insert)

lemma map_at_fold_collect:
  "wf_sets m \<Longrightarrow>
   set (map_at [] k (fold (collect r key elem) ps m)) =
   set (map_at [] k m) \<union> elem ` {p \<in> set ps. key p = k \<and> k \<noteq> r}"
proof (induction ps arbitrary: m)
  case Nil
  show ?case by simp
next
  case (Cons p ps)
  have "wf_sets (collect r key elem p m)" using Cons.prems by (rule wf_sets_collect)
  from Cons.IH [OF this] show ?case
    by (auto simp: map_at_collect [OF Cons.prems])
qed

subsection \<open>The scan as a fold over the references\<close>

lemma scan_js:
  "fold (\<lambda>j s'. scan_entry (rank geom) row (mtxIndG s' ! i ! j) (own geom (mtxIndG s' ! i ! j)) s')
     js s =
   s\<lparr>receiveList := fold (collect (rank geom) (\<lambda>p. own geom (snd p)) snd)
                       (map (\<lambda>j. (row, mtxIndG s ! i ! j)) js) (receiveList s),
     sendList := fold (collect (rank geom) (\<lambda>p. own geom (snd p)) fst)
                       (map (\<lambda>j. (row, mtxIndG s ! i ! j)) js) (sendList s)\<rparr>"
  by (induction js arbitrary: s) (simp_all add: scan_entry_def collect_def Let_def)

lemma scan_row_eq:
  "scan_row own geom i s =
   s\<lparr>receiveList := fold (collect (rank geom) (\<lambda>p. own geom (snd p)) snd)
                       (row_references s i) (receiveList s),
     sendList := fold (collect (rank geom) (\<lambda>p. own geom (snd p)) fst)
                       (row_references s i) (sendList s)\<rparr>"
  by (simp add: scan_row_def scan_js row_references_def Let_def)

lemma row_references_lists [simp]:
  "row_references (s\<lparr>receiveList := a, sendList := b\<rparr>) = row_references s"
  by (simp add: row_references_def fun_eq_iff)

lemma scan_is:
  "fold (scan_row own geom) is s =
   s\<lparr>receiveList := fold (collect (rank geom) (\<lambda>p. own geom (snd p)) snd)
                       (concat (map (row_references s) is)) (receiveList s),
     sendList := fold (collect (rank geom) (\<lambda>p. own geom (snd p)) fst)
                       (concat (map (row_references s) is)) (sendList s)\<rparr>"
  by (induction "is" arbitrary: s) (simp_all add: scan_row_eq)

lemma scan_rows_eq:
  "scan_rows own geom s =
   s\<lparr>receiveList := fold (collect (rank geom) (\<lambda>p. own geom (snd p)) snd)
                       (references s) (receiveList s),
     sendList := fold (collect (rank geom) (\<lambda>p. own geom (snd p)) fst)
                       (references s) (sendList s)\<rparr>"
  by (simp add: scan_rows_def scan_is references_def)


subsection \<open>Stores into arrays and the loop over the neighbours\<close>

lemma length_store_from [simp]: "length (store_from arr c xs) = length arr"
  by (induction xs arbitrary: arr c) auto

lemma store_from_append:
  "store_from arr c (xs @ ys) = store_from (store_from arr c xs) (c + length xs) ys"
  by (induction xs arbitrary: arr c) auto

lemma store_from_eq:
  "c + length xs \<le> length arr \<Longrightarrow>
   store_from arr c xs = take c arr @ map Some xs @ drop (c + length xs) arr"
proof (induction xs arbitrary: arr c)
  case Nil
  show ?case by simp
next
  case (Cons x xs)
  then have "store_from (arr[c := Some x]) (Suc c) xs =
      take (Suc c) (arr[c := Some x]) @ map Some xs @ drop (Suc c + length xs) (arr[c := Some x])"
    by simp
  moreover have "take (Suc c) (arr[c := Some x]) = take c arr @ [Some x]"
    using Cons.prems by (simp add: take_Suc_conv_app_nth)
  ultimately show ?case by simp
qed

lemma assign_from_append:
  "assign_from narrow n c (xs @ ys) m =
   assign_from narrow n (c + length xs) ys (assign_from narrow n c xs m)"
  by (induction xs arbitrary: c m) auto

lemma g2l_at_touch [simp]: "g2l_at (g2l_touch m k) = g2l_at m"
  by (auto simp: g2l_at_def g2l_touch_def fun_eq_iff split: option.splits)

lemma g2l_at_fold_touch [simp]: "g2l_at (fold (\<lambda>g m. g2l_touch m g) gs m) = g2l_at m"
  by (induction gs arbitrary: m) auto

lemma fold_assign_external:
  "fold (assign_external narrow) gs s =
   s\<lparr>externalToLocalMap :=
        assign_from narrow (localNumberOfRows s) (receiveEntryCount s) gs (externalToLocalMap s),
     receiveEntryCount := receiveEntryCount s + length gs\<rparr>"
  by (induction gs arbitrary: s) (simp_all add: assign_external_def)

lemma fold_store_send_element:
  "fold store_send_element gs s =
   s\<lparr>elementsToSend :=
        store_from (elementsToSend s) (sendEntryCount s) (map (g2l_at (globalToLocalMap s)) gs),
     globalToLocalMap := fold (\<lambda>g m. g2l_touch m g) gs (globalToLocalMap s),
     sendEntryCount := sendEntryCount s + length gs\<rparr>"
  by (induction gs arbitrary: s) (simp_all add: store_send_element_def)

lemma visit_neighbor_eq:
  assumes "sorted_wrt (<) (map fst (sendList s))" "k \<in> fst ` set (sendList s)"
  shows "visit_neighbor narrow k s =
   s\<lparr>neighbors := store_from (neighbors s) (neighborCount s) [k],
     receiveLength := store_from (receiveLength s) (neighborCount s)
        [int (length (map_at [] k (receiveList s)))],
     sendLength := store_from (sendLength s) (neighborCount s)
        [int (length (map_at [] k (sendList s)))],
     externalToLocalMap :=
        assign_from narrow (localNumberOfRows s) (receiveEntryCount s)
          (map_at [] k (receiveList s)) (externalToLocalMap s),
     receiveEntryCount := receiveEntryCount s + length (map_at [] k (receiveList s)),
     elementsToSend :=
        store_from (elementsToSend s) (sendEntryCount s)
          (map (g2l_at (globalToLocalMap s)) (map_at [] k (sendList s))),
     globalToLocalMap := fold (\<lambda>g m. g2l_touch m g) (map_at [] k (sendList s)) (globalToLocalMap s),
     sendEntryCount := sendEntryCount s + length (map_at [] k (sendList s)),
     neighborCount := Suc (neighborCount s)\<rparr>"
  using assms
  by (simp add: visit_neighbor_def Let_def fold_assign_external fold_store_send_element
      map_touch_present)

lemma fold_visit_neighbor:
  assumes "sorted_wrt (<) (map fst (sendList s))" "set ks \<subseteq> fst ` set (sendList s)"
  shows "fold (visit_neighbor narrow) ks s =
   s\<lparr>neighbors := store_from (neighbors s) (neighborCount s) ks,
     receiveLength := store_from (receiveLength s) (neighborCount s)
        (map (\<lambda>k. int (length (map_at [] k (receiveList s)))) ks),
     sendLength := store_from (sendLength s) (neighborCount s)
        (map (\<lambda>k. int (length (map_at [] k (sendList s)))) ks),
     externalToLocalMap :=
        assign_from narrow (localNumberOfRows s) (receiveEntryCount s)
          (concat (map (\<lambda>k. map_at [] k (receiveList s)) ks)) (externalToLocalMap s),
     receiveEntryCount :=
        receiveEntryCount s + length (concat (map (\<lambda>k. map_at [] k (receiveList s)) ks)),
     elementsToSend :=
        store_from (elementsToSend s) (sendEntryCount s)
          (map (g2l_at (globalToLocalMap s)) (concat (map (\<lambda>k. map_at [] k (sendList s)) ks))),
     globalToLocalMap :=
        fold (\<lambda>g m. g2l_touch m g) (concat (map (\<lambda>k. map_at [] k (sendList s)) ks))
          (globalToLocalMap s),
     sendEntryCount :=
        sendEntryCount s + length (concat (map (\<lambda>k. map_at [] k (sendList s)) ks)),
     neighborCount := neighborCount s + length ks\<rparr>"
  using assms
proof (induction ks arbitrary: s)
  case Nil
  show ?case by simp
next
  case (Cons k ks)
  let ?s = "visit_neighbor narrow k s"
  have v: "?s = s\<lparr>neighbors := store_from (neighbors s) (neighborCount s) [k],
     receiveLength := store_from (receiveLength s) (neighborCount s)
        [int (length (map_at [] k (receiveList s)))],
     sendLength := store_from (sendLength s) (neighborCount s)
        [int (length (map_at [] k (sendList s)))],
     externalToLocalMap :=
        assign_from narrow (localNumberOfRows s) (receiveEntryCount s)
          (map_at [] k (receiveList s)) (externalToLocalMap s),
     receiveEntryCount := receiveEntryCount s + length (map_at [] k (receiveList s)),
     elementsToSend :=
        store_from (elementsToSend s) (sendEntryCount s)
          (map (g2l_at (globalToLocalMap s)) (map_at [] k (sendList s))),
     globalToLocalMap := fold (\<lambda>g m. g2l_touch m g) (map_at [] k (sendList s)) (globalToLocalMap s),
     sendEntryCount := sendEntryCount s + length (map_at [] k (sendList s)),
     neighborCount := Suc (neighborCount s)\<rparr>"
    using Cons.prems by (intro visit_neighbor_eq) auto
  have "sorted_wrt (<) (map fst (sendList ?s))" "set ks \<subseteq> fst ` set (sendList ?s)"
    using Cons.prems by (simp_all add: v)
  from Cons.IH [OF this] show ?case
    by (simp add: v store_from_append [of _ _ "[x]" for x, simplified] 
        assign_from_append store_from_append add.commute)
qed


subsection \<open>The rewriting loop\<close>

lemma map_at_map_touch:
  "sorted_wrt (<) (map fst m) \<Longrightarrow> map_at d k' (map_touch d k m) = map_at d k' m"
  by (simp add: map_touch_def map_at_map_modify)

lemma sorted_keys_map_touch:
  "sorted_wrt (<) (map fst m) \<Longrightarrow> sorted_wrt (<) (map fst (map_touch d k m))"
  by (simp add: map_touch_def sorted_keys_map_modify)

lemma sorted_fold_touch_ext:
  "sorted_wrt (<) (map fst e) \<Longrightarrow> sorted_wrt (<) (map fst (fold (touch_ext narrow own geom) cs e))"
  by (induction cs arbitrary: e) (auto simp: touch_ext_def sorted_keys_map_touch)

lemma map_at_fold_touch_ext:
  "sorted_wrt (<) (map fst e) \<Longrightarrow> map_at 0 k (fold (touch_ext narrow own geom) cs e) = map_at 0 k e"
  by (induction cs arbitrary: e) (auto simp: touch_ext_def sorted_keys_map_touch map_at_map_touch)

lemma fold_touch_ext_present:
  "sorted_wrt (<) (map fst e) \<Longrightarrow>
   \<forall>c\<in>set cs. rank geom \<noteq> own geom c \<longrightarrow> narrow c \<in> fst ` set e \<Longrightarrow>
   fold (touch_ext narrow own geom) cs e = e"
  by (induction cs arbitrary: e) (auto simp: touch_ext_def map_touch_present)

lemma g2l_at_fold_touch_g2l: "g2l_at (fold (touch_g2l own geom) cs g) = g2l_at g"
  by (induction cs arbitrary: g) (auto simp: touch_g2l_def)

lemma local_index_touched:
  "sorted_wrt (<) (map fst e) \<Longrightarrow>
   local_index narrow own geom (touch_g2l own geom c g) (touch_ext narrow own geom c e) =
   local_index narrow own geom g e"
  by (auto simp: local_index_def touch_g2l_def touch_ext_def map_at_map_touch fun_eq_iff)

lemma rewrite_entry_eq:
  "rewrite_entry narrow own geom i j s =
   s\<lparr>mtxIndL := (mtxIndL s)[i := (mtxIndL s ! i)
        [j := local_index narrow own geom (globalToLocalMap s) (externalToLocalMap s) (mtxIndG s ! i ! j)]],
     globalToLocalMap := touch_g2l own geom (mtxIndG s ! i ! j) (globalToLocalMap s),
     externalToLocalMap := touch_ext narrow own geom (mtxIndG s ! i ! j) (externalToLocalMap s)\<rparr>"
  by (simp add: rewrite_entry_def Let_def local_index_def touch_g2l_def touch_ext_def)

lemma fold_rewrite_entry:
  assumes "sorted_wrt (<) (map fst (externalToLocalMap s))"
  shows "fold (\<lambda>p. rewrite_entry narrow own geom (fst p) (snd p)) ps s =
   s\<lparr>mtxIndL :=
       fold (\<lambda>p L. L[fst p := (L ! fst p)
          [snd p := local_index narrow own geom (globalToLocalMap s) (externalToLocalMap s)
                      (mtxIndG s ! fst p ! snd p)]]) ps (mtxIndL s),
     globalToLocalMap :=
       fold (touch_g2l own geom) (map (\<lambda>p. mtxIndG s ! fst p ! snd p) ps) (globalToLocalMap s),
     externalToLocalMap :=
       fold (touch_ext narrow own geom) (map (\<lambda>p. mtxIndG s ! fst p ! snd p) ps)
         (externalToLocalMap s)\<rparr>"
  using assms
proof (induction ps arbitrary: s)
  case Nil
  show ?case by simp
next
  case (Cons p ps)
  let ?s = "rewrite_entry narrow own geom (fst p) (snd p) s"
  have srt: "sorted_wrt (<) (map fst (externalToLocalMap ?s))"
    using Cons.prems by (simp add: rewrite_entry_eq touch_ext_def sorted_keys_map_touch)
  show ?case
    using Cons.prems
    by (simp add: Cons.IH [OF srt]) (simp add: rewrite_entry_eq local_index_touched)
qed

lemma rewrite_row_frame [simp]:
  "nonzerosInRow (fold (rewrite_entry narrow own geom i) js s) = nonzerosInRow s"
  "localNumberOfRows (fold (rewrite_entry narrow own geom i) js s) = localNumberOfRows s"
  by (induction js arbitrary: s) (simp_all add: rewrite_entry_eq)

lemma rewrite_row_as_cells:
  "rewrite_row narrow own geom i s =
   fold (\<lambda>p. rewrite_entry narrow own geom (fst p) (snd p)) (map (Pair i) [0..<nat (nonzerosInRow s ! i)]) s"
  by (simp add: rewrite_row_def fold_map comp_def)

lemma fold_rewrite_row:
  "fold (rewrite_row narrow own geom) is s =
   fold (\<lambda>p. rewrite_entry narrow own geom (fst p) (snd p))
     (concat (map (\<lambda>i. map (Pair i) [0..<nat (nonzerosInRow s ! i)]) is)) s"
proof (induction "is" arbitrary: s)
  case Nil
  show ?case by simp
next
  case (Cons i "is")
  have "nonzerosInRow (rewrite_row narrow own geom i s) = nonzerosInRow s"
    by (simp add: rewrite_row_def)
  then show ?case
    by (simp add: Cons.IH) (simp add: rewrite_row_as_cells)
qed

lemma rewrite_rows_as_cells:
  "rewrite_rows narrow own geom s =
   fold (\<lambda>p. rewrite_entry narrow own geom (fst p) (snd p)) (cells s) s"
  by (simp add: rewrite_rows_def fold_rewrite_row cells_def)


subsection \<open>Writes into the rows of the local index array\<close>

lemma length_writes [simp]:
  "length (fold (\<lambda>p L. L[fst p := (L ! fst p)[snd p := v p]]) ps L) = length L"
  by (induction ps arbitrary: L) auto

lemma length_row_writes:
  "i < length L \<Longrightarrow>
   length (fold (\<lambda>p L. L[fst p := (L ! fst p)[snd p := v p]]) ps L ! i) = length (L ! i)"
proof (induction ps arbitrary: L)
  case Nil
  show ?case by simp
next
  case (Cons p ps)
  then show ?case by (cases "fst p = i") auto
qed

lemma nth_writes:
  "(i, j) \<in> set ps \<Longrightarrow> i < length L \<Longrightarrow> j < length (L ! i) \<Longrightarrow>
   fold (\<lambda>p L. L[fst p := (L ! fst p)[snd p := v (fst p) (snd p)]]) ps L ! i ! j = v i j"
proof (induction ps arbitrary: L rule: rev_induct)
  case Nil
  then show ?case by simp
next
  case (snoc p ps)
  let ?L = "fold (\<lambda>p L. L[fst p := (L ! fst p)[snd p := v (fst p) (snd p)]]) ps L"
  have len: "length ?L = length L" "length (?L ! i) = length (L ! i)"
    using snoc.prems by (simp_all add: length_row_writes)
  show ?case
  proof (cases "p = (i, j)")
    case True
    with len snoc.prems show ?thesis by simp
  next
    case False
    with snoc.prems have "(i, j) \<in> set ps" by auto
    then have "?L ! i ! j = v i j" using snoc.prems by (intro snoc.IH)
    with False len snoc.prems show ?thesis
      by (cases p; cases "fst p = i") (auto simp: nth_list_update)
  qed
qed

lemma nth_writes_other:
  "(i, j) \<notin> set ps \<Longrightarrow> i < length L \<Longrightarrow>
   fold (\<lambda>p L. L[fst p := (L ! fst p)[snd p := v (fst p) (snd p)]]) ps L ! i ! j = L ! i ! j"
proof (induction ps arbitrary: L rule: rev_induct)
  case Nil
  then show ?case by simp
next
  case (snoc p ps)
  then show ?case
    by (cases p; cases "fst p = i") (auto simp: nth_list_update)
qed

lemma cells_iff: "(i, j) \<in> set (cells A) \<longleftrightarrow> i < nat (localNumberOfRows A) \<and> j < nat (nonzerosInRow A ! i)"
  by (force simp: cells_def)

lemma references_eq: "references A = map (\<lambda>p. (localToGlobalMap A ! fst p, mtxIndG A ! fst p ! snd p)) (cells A)"
  by (simp add: references_def cells_def row_references_def [abs_def] map_concat comp_def)

subsection \<open>Index assignment\<close>

lemma keys_assign_from:
  "fst ` set (assign_from narrow n c gs m) = fst ` set m \<union> narrow ` set gs"
  by (induction gs arbitrary: c m) (auto simp: keys_map_modify)

lemma sorted_assign_from:
  "sorted_wrt (<) (map fst m) \<Longrightarrow> sorted_wrt (<) (map fst (assign_from narrow n c gs m))"
  by (induction gs arbitrary: c m) (auto simp: sorted_keys_map_modify)

lemma map_at_assign_from_other:
  "sorted_wrt (<) (map fst m) \<Longrightarrow> k \<notin> narrow ` set gs \<Longrightarrow>
   map_at 0 k (assign_from narrow n c gs m) = map_at 0 k m"
  by (induction gs arbitrary: c m) (auto simp: sorted_keys_map_modify map_at_map_modify)

lemma map_at_assign_from:
  "sorted_wrt (<) (map fst m) \<Longrightarrow> distinct (map narrow gs) \<Longrightarrow> i < length gs \<Longrightarrow>
   map_at 0 (narrow (gs ! i)) (assign_from narrow n c gs m) = n + int (c + i)"
proof (induction gs arbitrary: c m i)
  case Nil
  then show ?case by simp
next
  case (Cons g gs)
  let ?m = "map_modify 0 (narrow g) (\<lambda>_. n + int c) m"
  have srt: "sorted_wrt (<) (map fst ?m)" using Cons.prems by (simp add: sorted_keys_map_modify)
  show ?case
  proof (cases i)
    case 0
    have "narrow g \<notin> narrow ` set gs" using Cons.prems by auto
    with srt have "map_at 0 (narrow g) (assign_from narrow n (Suc c) gs ?m) = map_at 0 (narrow g) ?m"
      by (rule map_at_assign_from_other)
    with 0 Cons.prems show ?thesis by (simp add: map_at_map_modify)
  next
    case (Suc i')
    with Cons.prems have "map_at 0 (narrow (gs ! i')) (assign_from narrow n (Suc c) gs ?m) = n + int (Suc c + i')"
      by (intro Cons.IH [OF srt]) auto
    with Suc show ?thesis by simp
  qed
qed

lemma sorted_keys_length:
  fixes m :: "(int \<times> 'v) list"
  shows "sorted_wrt (<) (map fst m) \<Longrightarrow> length m = card (fst ` set m)"
proof -
  assume "sorted_wrt (<) (map fst m)"
  then have "distinct (map fst m)" by (simp add: strict_sorted_iff)
  then have "card (set (map fst m)) = length (map fst m)" by (rule distinct_card)
  then show ?thesis by simp
qed

lemma count_entries_eq: "count_entries m = length (concat (map snd m))"
proof -
  have "fold (\<lambda>curNeighbor total. total + length (snd curNeighbor)) m a = a + length (concat (map snd m))" for a
    by (induction m arbitrary: a) auto
  then show ?thesis by (simp add: count_entries_def)
qed


subsection \<open>The stages of a run\<close>

lemma enter_fields [simp]:
  "localNumberOfRows (enter A) = localNumberOfRows A"
  "nonzerosInRow (enter A) = nonzerosInRow A"
  "mtxIndG (enter A) = mtxIndG A"
  "mtxIndL (enter A) = mtxIndL A"
  "localToGlobalMap (enter A) = localToGlobalMap A"
  "globalToLocalMap (enter A) = globalToLocalMap A"
  "sendList (enter A) = []"
  "receiveList (enter A) = []"
  "externalToLocalMap (enter A) = []"
  by (simp_all add: enter_def SparseMatrix.defs halo_run.defs)

lemma references_enter [simp]: "references (enter A) = references A"
  by (simp add: references_def row_references_def [abs_def])

lemma cells_enter [simp]: "cells (enter A) = cells A"
  by (simp add: cells_def)

lemma scan_rows_enter:
  "scan_rows own geom (enter A) =
   (enter A)\<lparr>receiveList := receive_sets own geom A, sendList := send_sets own geom A\<rparr>"
  by (simp add: scan_rows_eq receive_sets_def send_sets_def)

lemma wf_sets_Nil [simp]: "wf_sets []"
  by (simp add: wf_sets_def)

lemma wf_receive_sets: "wf_sets (receive_sets own geom A)"
  by (simp add: receive_sets_def wf_sets_fold_collect)

lemma wf_send_sets: "wf_sets (send_sets own geom A)"
  by (simp add: send_sets_def wf_sets_fold_collect)

lemma keys_send_receive:
  "map fst (send_sets own geom A) = map fst (receive_sets own geom A)"
proof -
  have "set (map fst (send_sets own geom A)) = set (map fst (receive_sets own geom A))"
    by (simp add: send_sets_def receive_sets_def keys_fold_collect)
  moreover have "sorted_wrt (<) (map fst (send_sets own geom A))"
    "sorted_wrt (<) (map fst (receive_sets own geom A))"
    using wf_send_sets [of own geom A] wf_receive_sets [of own geom A] by (simp_all add: wf_sets_def)
  ultimately show ?thesis by (metis strict_sorted_equal)
qed

lemma concat_map_at_keys:
  "sorted_wrt (<) (map fst m) \<Longrightarrow> map (\<lambda>k. map_at d k m) (map fst m) = map snd m"
proof -
  assume s: "sorted_wrt (<) (map fst m)"
  have "map_at d (fst p) m = snd p" if "p \<in> set m" for p
    using that map_at_member [OF s, of "fst p" "snd p" d] by simp
  then show ?thesis by simp
qed

lemma store_from_replicate:
  "length xs = n \<Longrightarrow> store_from (replicate n None) 0 xs = map Some xs"
  by (simp add: store_from_eq)


lemma remote_in_receive_sets:
  assumes "p \<in> set (references A)" "rank geom \<noteq> own geom (snd p)"
  shows "snd p \<in> set (concat (map snd (receive_sets own geom A)))"
proof -
  let ?RL = "receive_sets own geom A"
  let ?k = "own geom (snd p)"
  have srt: "sorted_wrt (<) (map fst ?RL)"
    using wf_receive_sets [of own geom A] by (simp add: wf_sets_def)
  have "set (map_at [] ?k ?RL) =
      set (map_at [] ?k []) \<union>
      snd ` {q \<in> set (references A). own geom (snd q) = ?k \<and> ?k \<noteq> rank geom}"
    unfolding receive_sets_def by (rule map_at_fold_collect) simp
  with assms have el: "snd p \<in> set (map_at [] ?k ?RL)" by auto
  have "fst ` set ?RL = {k \<in> (\<lambda>p. own geom (snd p)) ` set (references A). k \<noteq> rank geom}"
    by (simp add: receive_sets_def keys_fold_collect)
  with assms have "?k \<in> fst ` set ?RL" by auto
  then obtain v where v: "(?k, v) \<in> set ?RL" by auto
  then have "map_at [] ?k ?RL = v" using srt by (intro map_at_member)
  with el have "snd p \<in> set (snd (?k, v))" by simp
  with v show ?thesis unfolding set_concat set_map by blast
qed

lemma build_plan_eq:
  fixes A :: SparseMatrix and own :: "Geometry \<Rightarrow> int \<Rightarrow> int" and geom :: Geometry
  defines "RL \<equiv> receive_sets own geom A" and "SL \<equiv> send_sets own geom A"
  defines "gs \<equiv> concat (map snd RL)" and "hs \<equiv> concat (map snd SL)"
  shows "build_plan narrow (count_and_allocate (scan_rows own geom (enter A))) =
    (enter A)\<lparr>receiveList := RL, sendList := SL,
      totalToBeSent := int (length hs),
      totalToBeReceived := int (length gs),
      sendBuffer := replicate (length hs) None,
      neighbors := map Some (map fst RL),
      receiveLength := map Some (map (\<lambda>p. int (length (snd p))) RL),
      sendLength := map Some (map (\<lambda>p. int (length (snd p))) SL),
      externalToLocalMap := assign_from narrow (localNumberOfRows A) 0 gs [],
      receiveEntryCount := length gs,
      elementsToSend := map Some (map (g2l_at (globalToLocalMap A)) hs),
      globalToLocalMap := fold (\<lambda>g m. g2l_touch m g) hs (globalToLocalMap A),
      sendEntryCount := length hs,
      neighborCount := length RL\<rparr>"
proof -
  have keys: "map fst SL = map fst RL" unfolding SL_def RL_def by (rule keys_send_receive)
  have srtS: "sorted_wrt (<) (map fst SL)" and srtR: "sorted_wrt (<) (map fst RL)"
    using wf_send_sets [of own geom A] wf_receive_sets [of own geom A]
    by (simp_all add: wf_sets_def SL_def RL_def)
  have len: "length SL = length RL" using keys by (metis length_map)
  have cR: "map (\<lambda>x. map_at [] (fst x) RL) RL = map snd RL"
    using concat_map_at_keys [OF srtR, of "[]"] by (simp add: comp_def)
  have "map (\<lambda>k. map_at [] k SL) (map fst RL) = map snd SL"
    using concat_map_at_keys [OF srtS, of "[]"] keys by simp
  then have cS: "map (\<lambda>x. map_at [] (fst x) SL) RL = map snd SL"
    by (simp add: comp_def)
  have cR': "map (\<lambda>x. int (length (map_at [] (fst x) RL))) RL = map (\<lambda>p. int (length (snd p))) RL"
    using arg_cong [OF cR, of "map (\<lambda>v. int (length v))"] by (simp add: comp_def)
  have cS': "map (\<lambda>x. int (length (map_at [] (fst x) SL))) RL = map (\<lambda>p. int (length (snd p))) SL"
    using arg_cong [OF cS, of "map (\<lambda>v. int (length v))"] by (simp add: comp_def)
  let ?s = "count_and_allocate (scan_rows own geom (enter A))"
  have s: "?s = (enter A)\<lparr>receiveList := RL, sendList := SL,
      totalToBeSent := int (length hs),
      totalToBeReceived := int (length gs),
      sendBuffer := replicate (length hs) None,
      elementsToSend := replicate (length hs) None,
      neighbors := replicate (length SL) None,
      receiveLength := replicate (length RL) None,
      sendLength := replicate (length SL) None,
      neighborCount := 0, receiveEntryCount := 0, sendEntryCount := 0\<rparr>"
    by (simp add: scan_rows_enter count_and_allocate_def Let_def count_entries_eq
        RL_def SL_def gs_def hs_def)
  have "fold (visit_neighbor narrow) (map fst RL) ?s = 
    ?s\<lparr>neighbors := store_from (neighbors ?s) (neighborCount ?s) (map fst RL),
     receiveLength := store_from (receiveLength ?s) (neighborCount ?s)
        (map (\<lambda>k. int (length (map_at [] k (receiveList ?s)))) (map fst RL)),
     sendLength := store_from (sendLength ?s) (neighborCount ?s)
        (map (\<lambda>k. int (length (map_at [] k (sendList ?s)))) (map fst RL)),
     externalToLocalMap :=
        assign_from narrow (localNumberOfRows ?s) (receiveEntryCount ?s)
          (concat (map (\<lambda>k. map_at [] k (receiveList ?s)) (map fst RL))) (externalToLocalMap ?s),
     receiveEntryCount :=
        receiveEntryCount ?s + length (concat (map (\<lambda>k. map_at [] k (receiveList ?s)) (map fst RL))),
     elementsToSend :=
        store_from (elementsToSend ?s) (sendEntryCount ?s)
          (map (g2l_at (globalToLocalMap ?s)) (concat (map (\<lambda>k. map_at [] k (sendList ?s)) (map fst RL)))),
     globalToLocalMap :=
        fold (\<lambda>g m. g2l_touch m g) (concat (map (\<lambda>k. map_at [] k (sendList ?s)) (map fst RL)))
          (globalToLocalMap ?s),
     sendEntryCount :=
        sendEntryCount ?s + length (concat (map (\<lambda>k. map_at [] k (sendList ?s)) (map fst RL))),
     neighborCount := neighborCount ?s + length (map fst RL)\<rparr>"
  proof (rule fold_visit_neighbor)
    show "sorted_wrt (<) (map fst (sendList ?s))" using srtS by (simp add: s)
    show "set (map fst RL) \<subseteq> fst ` set (sendList ?s)" using keys by (simp add: s) (metis set_map order_refl)
  qed
  then show ?thesis
    unfolding build_plan_def
    apply (simp only: s)
    apply (simp add: cR cS cR' cS' len comp_def store_from_replicate gs_def hs_def)
    done
qed


lemma local_index_fold_touch [simp]:
  "local_index narrow own geom (fold (\<lambda>g m. g2l_touch m g) hs m) = local_index narrow own geom m"
  by (simp add: local_index_def fun_eq_iff)

lemma remote_keys_present:
  fixes A :: SparseMatrix
  assumes "c \<in> set (map (\<lambda>p. mtxIndG A ! fst p ! snd p) (cells A))" "rank geom \<noteq> own geom c"
  shows "narrow c \<in> fst ` set (assign_from narrow n 0 (concat (map snd (receive_sets own geom A))) [])"
proof -
  from assms(1) obtain q where q: "q \<in> set (cells A)" "c = mtxIndG A ! fst q ! snd q" by auto
  then have "(localToGlobalMap A ! fst q, c) \<in> set (references A)"
    by (auto simp: references_eq)
  with assms(2) have "c \<in> set (concat (map snd (receive_sets own geom A)))"
    using remote_in_receive_sets [of "(localToGlobalMap A ! fst q, c)" A geom own] by simp
  then show ?thesis by (simp add: keys_assign_from)
qed

lemma run_SetupHalo_eq:
  fixes A :: SparseMatrix and own :: "Geometry \<Rightarrow> int \<Rightarrow> int" and geom :: Geometry
    and narrow :: "int \<Rightarrow> int"
  defines "RL \<equiv> receive_sets own geom A" and "SL \<equiv> send_sets own geom A"
  defines "gs \<equiv> concat (map snd RL)" and "hs \<equiv> concat (map snd SL)"
  defines "E \<equiv> assign_from narrow (localNumberOfRows A) 0 gs []"
  shows "run_SetupHalo narrow own geom A =
    (enter A)\<lparr>receiveList := RL, sendList := SL,
      totalToBeSent := int (length hs),
      totalToBeReceived := int (length gs),
      sendBuffer := replicate (length hs) None,
      neighbors := map Some (map fst RL),
      receiveLength := map Some (map (\<lambda>p. int (length (snd p))) RL),
      sendLength := map Some (map (\<lambda>p. int (length (snd p))) SL),
      externalToLocalMap := E,
      receiveEntryCount := length gs,
      elementsToSend := map Some (map (g2l_at (globalToLocalMap A)) hs),
      globalToLocalMap :=
        fold (touch_g2l own geom) (map (\<lambda>p. mtxIndG A ! fst p ! snd p) (cells A))
          (fold (\<lambda>g m. g2l_touch m g) hs (globalToLocalMap A)),
      sendEntryCount := length hs,
      neighborCount := length RL,
      mtxIndL :=
        fold (\<lambda>p L. L[fst p := (L ! fst p)
          [snd p := local_index narrow own geom (globalToLocalMap A) E (mtxIndG A ! fst p ! snd p)]])
          (cells A) (mtxIndL A),
      numberOfExternalValues := int (length E),
      localNumberOfColumns := localNumberOfRows A + int (length E),
      numberOfSendNeighbors := int (length SL)\<rparr>"
proof -
  let ?b = "build_plan narrow (count_and_allocate (scan_rows own geom (enter A)))"
  have b: "?b = (enter A)\<lparr>receiveList := RL, sendList := SL,
      totalToBeSent := int (length hs),
      totalToBeReceived := int (length gs),
      sendBuffer := replicate (length hs) None,
      neighbors := map Some (map fst RL),
      receiveLength := map Some (map (\<lambda>p. int (length (snd p))) RL),
      sendLength := map Some (map (\<lambda>p. int (length (snd p))) SL),
      externalToLocalMap := E,
      receiveEntryCount := length gs,
      elementsToSend := map Some (map (g2l_at (globalToLocalMap A)) hs),
      globalToLocalMap := fold (\<lambda>g m. g2l_touch m g) hs (globalToLocalMap A),
      sendEntryCount := length hs,
      neighborCount := length RL\<rparr>"
    unfolding RL_def SL_def gs_def hs_def E_def by (rule build_plan_eq)
  have srt: "sorted_wrt (<) (map fst E)"
    unfolding E_def by (rule sorted_assign_from) simp
  have srtb: "sorted_wrt (<) (map fst (externalToLocalMap ?b))"
    using srt by (simp add: b)
  have keep: "fold (touch_ext narrow own geom) (map (\<lambda>p. mtxIndG A ! fst p ! snd p) (cells A)) E = E"
  proof (rule fold_touch_ext_present [OF srt], intro ballI impI)
    fix c
    assume "c \<in> set (map (\<lambda>p. mtxIndG A ! fst p ! snd p) (cells A))" "rank geom \<noteq> own geom c"
    then show "narrow c \<in> fst ` set E"
      unfolding E_def gs_def RL_def by (rule remote_keys_present)
  qed
  have cb: "cells ?b = cells A" by (simp add: b cells_def)
  show ?thesis
    unfolding run_SetupHalo_def rewrite_rows_as_cells fold_rewrite_entry [OF srtb] cb
    by (simp add: b keep store_contents_def Let_def)
qed

subsection \<open>The result of a run, field by field\<close>

lemma SetupHalo_fields:
  "localNumberOfRows (SetupHalo narrow own geom A) = localNumberOfRows (run_SetupHalo narrow own geom A)"
  "nonzerosInRow (SetupHalo narrow own geom A) = nonzerosInRow (run_SetupHalo narrow own geom A)"
  "mtxIndG (SetupHalo narrow own geom A) = mtxIndG (run_SetupHalo narrow own geom A)"
  "mtxIndL (SetupHalo narrow own geom A) = mtxIndL (run_SetupHalo narrow own geom A)"
  "localToGlobalMap (SetupHalo narrow own geom A) = localToGlobalMap (run_SetupHalo narrow own geom A)"
  "globalToLocalMap (SetupHalo narrow own geom A) = globalToLocalMap (run_SetupHalo narrow own geom A)"
  "numberOfExternalValues (SetupHalo narrow own geom A) = numberOfExternalValues (run_SetupHalo narrow own geom A)"
  "localNumberOfColumns (SetupHalo narrow own geom A) = localNumberOfColumns (run_SetupHalo narrow own geom A)"
  "numberOfSendNeighbors (SetupHalo narrow own geom A) = numberOfSendNeighbors (run_SetupHalo narrow own geom A)"
  "totalToBeSent (SetupHalo narrow own geom A) = totalToBeSent (run_SetupHalo narrow own geom A)"
  "elementsToSend (SetupHalo narrow own geom A) = elementsToSend (run_SetupHalo narrow own geom A)"
  "neighbors (SetupHalo narrow own geom A) = neighbors (run_SetupHalo narrow own geom A)"
  "receiveLength (SetupHalo narrow own geom A) = receiveLength (run_SetupHalo narrow own geom A)"
  "sendLength (SetupHalo narrow own geom A) = sendLength (run_SetupHalo narrow own geom A)"
  "sendBuffer (SetupHalo narrow own geom A) = sendBuffer (run_SetupHalo narrow own geom A)"
  by (simp_all add: SetupHalo_def SparseMatrix.defs)

lemma run_lists:
  "receiveList (run_SetupHalo narrow own geom A) = receive_sets own geom A"
  "sendList (run_SetupHalo narrow own geom A) = send_sets own geom A"
  "externalToLocalMap (run_SetupHalo narrow own geom A) =
     assign_from narrow (localNumberOfRows A) 0 (concat (map snd (receive_sets own geom A))) []"
  by (simp_all add: run_SetupHalo_eq)

lemma run_arrays:
  "neighbors (run_SetupHalo narrow own geom A) = map Some (map fst (receive_sets own geom A))"
  "receiveLength (run_SetupHalo narrow own geom A) =
     map Some (map (\<lambda>p. int (length (snd p))) (receive_sets own geom A))"
  "sendLength (run_SetupHalo narrow own geom A) =
     map Some (map (\<lambda>p. int (length (snd p))) (send_sets own geom A))"
  "elementsToSend (run_SetupHalo narrow own geom A) =
     map Some (map (g2l_at (globalToLocalMap A)) (concat (map snd (send_sets own geom A))))"
  "sendBuffer (run_SetupHalo narrow own geom A) =
     replicate (length (concat (map snd (send_sets own geom A)))) None"
  by (simp_all add: run_SetupHalo_eq)

lemma run_scalars:
  "localNumberOfRows (run_SetupHalo narrow own geom A) = localNumberOfRows A"
  "totalToBeSent (run_SetupHalo narrow own geom A) = int (length (concat (map snd (send_sets own geom A))))"
  "totalToBeReceived (run_SetupHalo narrow own geom A) = int (length (concat (map snd (receive_sets own geom A))))"
  "numberOfExternalValues (run_SetupHalo narrow own geom A) =
     int (length (externalToLocalMap (run_SetupHalo narrow own geom A)))"
  "localNumberOfColumns (run_SetupHalo narrow own geom A) =
     localNumberOfRows A + int (length (externalToLocalMap (run_SetupHalo narrow own geom A)))"
  "numberOfSendNeighbors (run_SetupHalo narrow own geom A) = int (length (send_sets own geom A))"
  by (simp_all add: run_SetupHalo_eq)

lemma run_mtxIndL:
  "mtxIndL (run_SetupHalo narrow own geom A) =
     fold (\<lambda>p L. L[fst p := (L ! fst p)
          [snd p := local_index narrow own geom (globalToLocalMap A)
             (externalToLocalMap (run_SetupHalo narrow own geom A)) (mtxIndG A ! fst p ! snd p)]])
          (cells A) (mtxIndL A)"
  by (simp add: run_SetupHalo_eq)

lemma rewritten_entry:
  assumes "i < nat (localNumberOfRows A)" "j < nat (nonzerosInRow A ! i)"
    "i < length (mtxIndL A)" "j < length (mtxIndL A ! i)"
  shows "mtxIndL (run_SetupHalo narrow own geom A) ! i ! j =
     local_index narrow own geom (globalToLocalMap A)
       (externalToLocalMap (run_SetupHalo narrow own geom A)) (mtxIndG A ! i ! j)"
proof -
  have "(i, j) \<in> set (cells A)" using assms by (simp add: cells_iff)
  then show ?thesis
    unfolding run_mtxIndL using assms(3,4)
    by (rule nth_writes [where v = "\<lambda>i j. local_index narrow own geom (globalToLocalMap A)
       (externalToLocalMap (run_SetupHalo narrow own geom A)) (mtxIndG A ! i ! j)"])
qed

subsection \<open>Neighbour ranks\<close>

lemma keys_receive_sets:
  "set (map fst (receive_sets own geom A)) = neighbor_ranks own geom A"
  by (auto simp: receive_sets_def keys_fold_collect neighbor_ranks_def remote_references_def)

lemma sorted_keys_receive_sets: "sorted_wrt (<) (map fst (receive_sets own geom A))"
  using wf_receive_sets [of own geom A] by (simp add: wf_sets_def)

lemma keys_receive_sets_sorted_list:
  "map fst (receive_sets own geom A) = sorted_list_of_set (neighbor_ranks own geom A)"
proof -
  have "sorted (map fst (receive_sets own geom A))" "distinct (map fst (receive_sets own geom A))"
    using sorted_keys_receive_sets [of own geom A] by (simp_all add: strict_sorted_iff)
  then have "sorted_list_of_set (set (map fst (receive_sets own geom A))) = map fst (receive_sets own geom A)"
    by (rule sorted_list_of_set.idem_if_sorted_distinct [simplified])
  then show ?thesis by (simp only: keys_receive_sets)
qed

lemma wf_sets_nonempty: "wf_sets m \<Longrightarrow> p \<in> set m \<Longrightarrow> snd p \<noteq> []"
  by (auto simp: wf_sets_def list_all_iff)

lemma wf_sets_sorted: "wf_sets m \<Longrightarrow> p \<in> set m \<Longrightarrow> sorted_wrt (<) (snd p)"
  by (auto simp: wf_sets_def list_all_iff)

lemma wf_sets_keys: "wf_sets m \<Longrightarrow> sorted_wrt (<) (map fst m)"
  by (simp add: wf_sets_def)

lemma nonempty_entries:
  assumes "wf_sets m"
  shows "{k. map_at [] k m \<noteq> []} = fst ` set m"
proof (intro set_eqI iffI)
  fix k
  assume "k \<in> {k. map_at [] k m \<noteq> []}"
  then show "k \<in> fst ` set m" using map_at_absent [of k m "[]"] by auto
next
  fix k
  assume "k \<in> fst ` set m"
  then obtain v where v: "(k, v) \<in> set m" by auto
  then have "map_at [] k m = v" using assms by (intro map_at_member wf_sets_keys)
  moreover have "v \<noteq> []" using wf_sets_nonempty [OF assms v] by simp
  ultimately show "k \<in> {k. map_at [] k m \<noteq> []}" by simp
qed

subsection \<open>The dependency lists after the scan\<close>

lemma sorted_map_at: "wf_sets m \<Longrightarrow> sorted_wrt (<) (map_at [] k m)"
proof (cases "k \<in> fst ` set m")
  case True
  assume w: "wf_sets m"
  from True obtain v where v: "(k, v) \<in> set m" by auto
  then have "map_at [] k m = v" using w by (intro map_at_member wf_sets_keys)
  then show ?thesis using wf_sets_sorted [OF w v] by simp
next
  case False
  then show ?thesis by (simp add: map_at_absent)
qed

lemma receive_set_of_rank:
  "set (map_at [] k (receive_sets own geom A)) = {g \<in> remote_columns own geom A. own geom g = k}"
proof -
  have "set (map_at [] k (receive_sets own geom A)) =
      set (map_at [] k []) \<union>
      snd ` {q \<in> set (references A). own geom (snd q) = k \<and> k \<noteq> rank geom}"
    unfolding receive_sets_def by (rule map_at_fold_collect) simp
  then show ?thesis
    by (auto simp: remote_columns_def remote_references_def)
qed

lemma send_set_of_rank:
  "set (map_at [] k (send_sets own geom A)) =
   fst ` {p \<in> set (remote_references own geom A). own geom (snd p) = k}"
proof -
  have "set (map_at [] k (send_sets own geom A)) =
      set (map_at [] k []) \<union>
      fst ` {q \<in> set (references A). own geom (snd q) = k \<and> k \<noteq> rank geom}"
    unfolding send_sets_def by (rule map_at_fold_collect) simp
  then show ?thesis
    by (auto simp: remote_references_def)
qed

lemma fold_scan_entry:
  "fold (\<lambda>p. scan_entry (rank geom) (fst p) (snd p) (own geom (snd p))) ps s =
   s\<lparr>receiveList := fold (collect (rank geom) (\<lambda>p. own geom (snd p)) snd) ps (receiveList s),
     sendList := fold (collect (rank geom) (\<lambda>p. own geom (snd p)) fst) ps (sendList s)\<rparr>"
  by (induction ps arbitrary: s) (simp_all add: scan_entry_def collect_def)

lemma scan_rows_as_references:
  "scan_rows own geom s =
   fold (\<lambda>p. scan_entry (rank geom) (fst p) (snd p) (own geom (snd p))) (references s) s"
  by (simp add: scan_rows_eq fold_scan_entry)

lemma send_rows_local:
  assumes "g \<in> set (concat (map snd (send_sets own geom A)))"
  shows "\<exists>i < nat (localNumberOfRows A). g = localToGlobalMap A ! i"
proof -
  let ?SL = "send_sets own geom A"
  from assms obtain p where p: "p \<in> set ?SL" "g \<in> set (snd p)" by auto
  have "map_at [] (fst p) ?SL = snd p"
    using p(1) wf_sets_keys [OF wf_send_sets, of own geom A]
    by (intro map_at_member) simp_all
  with p(2) have "g \<in> fst ` {q \<in> set (remote_references own geom A). own geom (snd q) = fst p}"
    using send_set_of_rank [of "fst p" own geom A] by simp
  then obtain q where "q \<in> set (references A)" "g = fst q"
    by (auto simp: remote_references_def)
  then show ?thesis
    by (auto simp: references_eq cells_iff)
qed

lemma fold_collect_local:
  "list_all (\<lambda>p. key p = r) ps \<Longrightarrow> fold (collect r key elem) ps m = m"
  by (induction ps arbitrary: m) (simp_all add: collect_def)

lemma all_local_sets:
  assumes "list_all (\<lambda>p. own geom (snd p) = rank geom) (references A)"
  shows "receive_sets own geom A = []" "send_sets own geom A = []"
  using assms by (simp_all add: receive_sets_def send_sets_def fold_collect_local)

lemma reference_at:
  assumes "i < nat (localNumberOfRows A)" "j < nat (nonzerosInRow A ! i)"
  shows "(localToGlobalMap A ! i, mtxIndG A ! i ! j) \<in> set (references A)"
proof -
  have "(i, j) \<in> set (cells A)" using assms by (simp add: cells_iff)
  then have "(\<lambda>p. (localToGlobalMap A ! fst p, mtxIndG A ! fst p ! snd p)) (i, j) \<in>
      (\<lambda>p. (localToGlobalMap A ! fst p, mtxIndG A ! fst p ! snd p)) ` set (cells A)"
    by (rule imageI)
  then show ?thesis by (simp add: references_eq)
qed

subsection \<open>The receive sets and the external indices\<close>

lemma receive_entry_owner:
  assumes "p \<in> set (receive_sets own geom A)" "g \<in> set (snd p)"
  shows "own geom g = fst p" "g \<in> remote_columns own geom A"
proof -
  have "map_at [] (fst p) (receive_sets own geom A) = snd p"
    using assms(1) wf_sets_keys [OF wf_receive_sets, of own geom A]
    by (intro map_at_member) simp_all
  with assms(2) have "g \<in> {g \<in> remote_columns own geom A. own geom g = fst p}"
    using receive_set_of_rank [of "fst p" own geom A] by simp
  then show "own geom g = fst p" "g \<in> remote_columns own geom A" by simp_all
qed

lemma receive_sets_disjoint:
  assumes "p \<in> set (receive_sets own geom A)" "q \<in> set (receive_sets own geom A)" "p \<noteq> q"
  shows "set (snd p) \<inter> set (snd q) = {}"
proof -
  have at: "map_at [] (fst x) (receive_sets own geom A) = snd x"
    if "x \<in> set (receive_sets own geom A)" for x
    using that sorted_keys_receive_sets [of own geom A] by (intro map_at_member) simp_all
  have "fst p \<noteq> fst q"
  proof
    assume "fst p = fst q"
    with at [OF assms(1)] at [OF assms(2)] have "p = q" by (simp add: prod_eq_iff)
    with assms(3) show False by simp
  qed
  then show ?thesis
    using receive_entry_owner(1) [OF assms(1)] receive_entry_owner(1) [OF assms(2)] by fastforce
qed

lemma distinct_received: "distinct (concat (map snd (receive_sets own geom A)))"
proof (rule distinct_concat)
  let ?RL = "receive_sets own geom A"
  have ne: "snd p \<noteq> []" if "p \<in> set ?RL" for p
    using wf_sets_nonempty [OF wf_receive_sets that] .
  have inj: "inj_on snd (set ?RL)"
  proof (rule inj_onI)
    fix p q
    assume pq: "p \<in> set ?RL" "q \<in> set ?RL" "snd p = snd q"
    show "p = q"
    proof (rule ccontr)
      assume "p \<noteq> q"
      from receive_sets_disjoint [OF pq(1,2) this] pq(3) ne [OF pq(1)] show False by simp
    qed
  qed
  have "distinct ?RL"
    using sorted_keys_receive_sets [of own geom A] by (simp add: strict_sorted_iff distinct_map)
  then show "distinct (map snd ?RL)" using inj by (simp add: distinct_map)
  show "distinct ys" if "ys \<in> set (map snd ?RL)" for ys
  proof -
    from that obtain p where "p \<in> set ?RL" "ys = snd p" by auto
    then show ?thesis
      using wf_sets_sorted [OF wf_receive_sets, of p own geom A] by (simp add: strict_sorted_iff)
  qed
  show "set ys \<inter> set zs = {}"
    if "ys \<in> set (map snd ?RL)" "zs \<in> set (map snd ?RL)" "ys \<noteq> zs" for ys zs
  proof -
    from that obtain p q where "p \<in> set ?RL" "ys = snd p" "q \<in> set ?RL" "zs = snd q" by auto
    with that(3) show ?thesis using receive_sets_disjoint [of p own geom A q] by auto
  qed
qed

lemma set_received:
  "set (concat (map snd (receive_sets own geom A))) = remote_columns own geom A"
proof (intro set_eqI iffI)
  fix g
  assume "g \<in> set (concat (map snd (receive_sets own geom A)))"
  then obtain p where "p \<in> set (receive_sets own geom A)" "g \<in> set (snd p)" by auto
  then show "g \<in> remote_columns own geom A" by (rule receive_entry_owner(2))
next
  fix g
  assume "g \<in> remote_columns own geom A"
  then obtain p where "p \<in> set (references A)" "rank geom \<noteq> own geom (snd p)" "g = snd p"
    by (auto simp: remote_columns_def remote_references_def)
  then show "g \<in> set (concat (map snd (receive_sets own geom A)))"
    using remote_in_receive_sets [of p A geom own] by simp
qed

lemma map_at_present:
  "sorted_wrt (<) (map fst m) \<Longrightarrow> k \<in> fst ` set m \<Longrightarrow> (k, map_at d k m) \<in> set m"
proof -
  assume s: "sorted_wrt (<) (map fst m)" and "k \<in> fst ` set m"
  then obtain v where v: "(k, v) \<in> set m" by auto
  with s have "map_at d k m = v" by (intro map_at_member)
  with v show ?thesis by simp
qed

lemma assigned_values:
  fixes narrow :: "int \<Rightarrow> int" and n :: int and gs :: "int list"
  assumes "distinct (map narrow gs)"
  defines "E \<equiv> assign_from narrow n 0 gs []"
  shows "snd ` set E = {n ..< n + int (length gs)}" "length E = length gs" "distinct (map snd E)"
proof -
  have srt: "sorted_wrt (<) (map fst E)" unfolding E_def by (rule sorted_assign_from) simp
  have keys: "fst ` set E = narrow ` set gs" by (simp add: E_def keys_assign_from)
  have at: "map_at 0 (narrow (gs ! i)) E = n + int i" if "i < length gs" for i
    using map_at_assign_from [OF _ assms(1) that, of "[]" n 0] by (simp add: E_def)
  show v: "snd ` set E = {n ..< n + int (length gs)}"
  proof (intro set_eqI iffI)
    fix x
    assume "x \<in> snd ` set E"
    then obtain k where k: "(k, x) \<in> set E" by auto
    then have "k \<in> narrow ` set gs" using keys by (metis fst_conv imageI)
    then obtain i where i: "i < length gs" "k = narrow (gs ! i)"
      by (auto simp: in_set_conv_nth)
    from k srt have "map_at 0 k E = x" by (intro map_at_member)
    with at [OF i(1)] i show "x \<in> {n ..< n + int (length gs)}" by simp
  next
    fix x
    assume "x \<in> {n ..< n + int (length gs)}"
    then have i: "nat (x - n) < length gs" "x = n + int (nat (x - n))" by auto
    have "narrow (gs ! nat (x - n)) \<in> fst ` set E" using keys i(1) by simp
    from map_at_present [OF srt this, of 0] at [OF i(1)] i(2)
    have "(narrow (gs ! nat (x - n)), x) \<in> set E" by simp
    then show "x \<in> snd ` set E" by (metis snd_conv imageI)
  qed
  have "card (narrow ` set gs) = length gs"
    using assms(1) distinct_card [of "map narrow gs"] by simp
  then show l: "length E = length gs"
    using sorted_keys_length [OF srt] keys by simp
  have "card (set (map snd E)) = length (map snd E)" using v l by simp
  then show "distinct (map snd E)" by (rule card_distinct)
qed


lemma int_length_concat_sets:
  fixes m :: rank_sets
  shows "int (length (concat (map snd m))) = sum_list (map (\<lambda>p. int (length (snd p))) m)"
  by (induction m) simp_all

lemma external_count:
  "numberOfExternalValues (SetupHalo narrow own geom A) =
   int (card (narrow ` remote_columns own geom A))"
proof -
  let ?E = "assign_from narrow (localNumberOfRows A) 0 (concat (map snd (receive_sets own geom A))) []"
  have "sorted_wrt (<) (map fst ?E)" by (rule sorted_assign_from) simp
  then have "length ?E = card (fst ` set ?E)" by (rule sorted_keys_length)
  also have "fst ` set ?E = narrow ` remote_columns own geom A"
    using set_received [of own geom A] by (simp add: keys_assign_from)
  finally show ?thesis by (simp add: SetupHalo_fields run_scalars run_lists)
qed

subsection \<open>The external indices when the key conversion is injective\<close>

text \<open>
  The walk over the receive sets, the keys of \<open>externalToLocalMap\<close> and the rewriting of
  remote references, for every input; and, when \<open>narrow\<close> is injective on the remote
  column ids of the process, the indices bound: the \<open>i\<close>-th id of the walk is bound to
  \<open>localNumberOfRows + i\<close>, and the indices bound are the contiguous range above the
  local rows, each bound once.
\<close>

lemma external_indices:
  fixes narrow :: "int \<Rightarrow> int" and getRankOfMatrixRow :: "Geometry \<Rightarrow> int \<Rightarrow> int"
    and geom :: Geometry and A :: SparseMatrix
  defines "s \<equiv> run_SetupHalo narrow getRankOfMatrixRow geom A"
  defines "R \<equiv> SetupHalo narrow getRankOfMatrixRow geom A"
  defines "gs \<equiv> concat (map snd (receiveList s))"
  shows
   "set gs = remote_columns getRankOfMatrixRow geom A \<and> distinct gs \<and>
    neighbors R = map (\<lambda>p. Some (fst p)) (receiveList s) \<and>
    sorted_wrt (<) (map fst (receiveList s)) \<and>
    list_all (\<lambda>p. sorted_wrt (<) (snd p)) (receiveList s) \<and>
    fst ` set (externalToLocalMap s) = narrow ` remote_columns getRankOfMatrixRow geom A \<and>
    (\<forall>i j. i < nat (localNumberOfRows A) \<and> j < nat (nonzerosInRow A ! i) \<and>
           i < length (mtxIndL A) \<and> j < length (mtxIndL A ! i) \<and>
           getRankOfMatrixRow geom (mtxIndG A ! i ! j) \<noteq> rank geom \<longrightarrow>
       mtxIndL R ! i ! j = map_at 0 (narrow (mtxIndG A ! i ! j)) (externalToLocalMap s)) \<and>
    (inj_on narrow (remote_columns getRankOfMatrixRow geom A) \<longrightarrow>
       (\<forall>i < length gs.
          map_at 0 (narrow (gs ! i)) (externalToLocalMap s) = localNumberOfRows A + int i) \<and>
       snd ` set (externalToLocalMap s) =
         {localNumberOfRows A ..< localNumberOfRows A + numberOfExternalValues R} \<and>
       distinct (map snd (externalToLocalMap s)) \<and>
       numberOfExternalValues R = int (length gs))"
proof -
  let ?RL = "receive_sets getRankOfMatrixRow geom A"
  let ?E = "assign_from narrow (localNumberOfRows A) 0 (concat (map snd ?RL)) []"
  have gs: "gs = concat (map snd ?RL)" by (simp add: gs_def s_def run_lists)
  have E: "externalToLocalMap s = ?E" by (simp add: s_def run_lists)
  have set_gs: "set gs = remote_columns getRankOfMatrixRow geom A"
    unfolding gs by (rule set_received)
  have dist: "distinct gs" unfolding gs by (rule distinct_received)
  have n: "neighbors R = map (\<lambda>p. Some (fst p)) ?RL"
    by (simp add: R_def SetupHalo_fields run_arrays comp_def)
  have w: "list_all (\<lambda>p. sorted_wrt (<) (snd p)) ?RL"
    using wf_receive_sets [of getRankOfMatrixRow geom A] by (simp add: wf_sets_def list_all_iff)
  have keys: "fst ` set (externalToLocalMap s) = narrow ` remote_columns getRankOfMatrixRow geom A"
    using set_gs by (simp add: E keys_assign_from gs)
  have rew: "mtxIndL R ! i ! j = map_at 0 (narrow (mtxIndG A ! i ! j)) (externalToLocalMap s)"
    if "i < nat (localNumberOfRows A)" "j < nat (nonzerosInRow A ! i)"
      "i < length (mtxIndL A)" "j < length (mtxIndL A ! i)"
      "getRankOfMatrixRow geom (mtxIndG A ! i ! j) \<noteq> rank geom" for i j
    using rewritten_entry [OF that(1-4), of narrow getRankOfMatrixRow geom] that(5)
    by (simp add: R_def s_def SetupHalo_fields local_index_def)
  have inj: "(\<forall>i < length gs.
          map_at 0 (narrow (gs ! i)) (externalToLocalMap s) = localNumberOfRows A + int i) \<and>
       snd ` set (externalToLocalMap s) =
         {localNumberOfRows A ..< localNumberOfRows A + numberOfExternalValues R} \<and>
       distinct (map snd (externalToLocalMap s)) \<and>
       numberOfExternalValues R = int (length gs)"
    if h: "inj_on narrow (remote_columns getRankOfMatrixRow geom A)"
  proof -
    have dn: "distinct (map narrow gs)"
      using dist h by (simp add: distinct_map set_gs)
    note vals = assigned_values [OF dn, of "localNumberOfRows A"]
    have at: "map_at 0 (narrow (gs ! i)) (externalToLocalMap s) = localNumberOfRows A + int i"
      if "i < length gs" for i
      using map_at_assign_from [OF _ dn that, of "[]" "localNumberOfRows A" 0]
      by (simp add: E gs)
    have ext: "numberOfExternalValues R = int (length gs)"
      using vals(2) by (simp add: R_def SetupHalo_fields run_scalars run_lists gs)
    show ?thesis
      using at vals(1,3) ext by (simp add: E gs)
  qed
  show ?thesis
    using set_gs dist n w keys rew inj sorted_keys_receive_sets [of getRankOfMatrixRow geom A]
    by (simp add: s_def run_lists)
qed

lemma external_indices_example:
  "inj_on (\<lambda>g. g) (remote_columns fan_owner \<lparr>rank = 0\<rparr> fan_rank0) \<and>
   concat (map snd (receiveList (run_SetupHalo (\<lambda>g. g) fan_owner \<lparr>rank = 0\<rparr> fan_rank0))) = [1, 2] \<and>
   map_at 0 2 (externalToLocalMap (run_SetupHalo (\<lambda>g. g) fan_owner \<lparr>rank = 0\<rparr> fan_rank0)) = 2 \<and>
   snd ` set (externalToLocalMap (run_SetupHalo (\<lambda>g. g) fan_owner \<lparr>rank = 0\<rparr> fan_rank0)) = {1 ..< 3} \<and>
   numberOfExternalValues (SetupHalo (\<lambda>g. g) fan_owner \<lparr>rank = 0\<rparr> fan_rank0) = 2 \<and>
   mtxIndL (SetupHalo (\<lambda>g. g) fan_owner \<lparr>rank = 0\<rparr> fan_rank0) ! 0 ! 2 = 2"
proof -
  let ?s = "run_SetupHalo (\<lambda>g. g) fan_owner \<lparr>rank = 0\<rparr> fan_rank0"
  let ?R = "SetupHalo (\<lambda>g. g) fan_owner \<lparr>rank = 0\<rparr> fan_rank0"
  have h: "inj_on (\<lambda>g. g) (remote_columns fan_owner \<lparr>rank = 0\<rparr> fan_rank0)" by simp
  have gs: "concat (map snd (receiveList ?s)) = [1, 2]" by code_simp
  have n: "localNumberOfRows fan_rank0 = 1" by code_simp
  have b: "(0::nat) < nat (localNumberOfRows fan_rank0) \<and>
      (2::nat) < nat (nonzerosInRow fan_rank0 ! 0) \<and>
      (0::nat) < length (mtxIndL fan_rank0) \<and> (2::nat) < length (mtxIndL fan_rank0 ! 0) \<and>
      fan_owner \<lparr>rank = 0\<rparr> (mtxIndG fan_rank0 ! 0 ! 2) \<noteq> rank \<lparr>rank = 0\<rparr>"
    by code_simp
  have c: "mtxIndG fan_rank0 ! 0 ! 2 = 2" by code_simp
  note t = external_indices [of "\<lambda>g. g" fan_owner "\<lparr>rank = 0\<rparr>" fan_rank0]
  note rest = t [THEN conjunct2, THEN conjunct2, THEN conjunct2, THEN conjunct2,
      THEN conjunct2, THEN conjunct2]
  note rewritten = rest [THEN conjunct1, rule_format, OF b]
  note bound = rest [THEN conjunct2, THEN mp, OF h]
  from bound [THEN conjunct1, unfolded gs n, rule_format, of 1]
  have a: "map_at 0 2 (externalToLocalMap ?s) = 2" by simp
  from bound [THEN conjunct2, THEN conjunct2, THEN conjunct2, unfolded gs]
  have e: "numberOfExternalValues ?R = 2" by simp
  from bound [THEN conjunct2, THEN conjunct1, unfolded n e]
  have v: "snd ` set (externalToLocalMap ?s) = {1 ..< 3}" by simp
  from rewritten [unfolded c] a have r: "mtxIndL ?R ! 0 ! 2 = 2" by simp
  show ?thesis
    by (intro conjI) (fact h gs a v e r)+
qed

text \<open>
  The receive sets are pairwise disjoint and the sum of \<open>receiveLength\<close> is the number
  of remote column ids, for every input; \<open>numberOfExternalValues\<close> is the number of their
  keys, which is that sum when \<open>narrow\<close> is injective on the remote column ids.
\<close>

lemma externals_total:
  fixes narrow :: "int \<Rightarrow> int" and getRankOfMatrixRow :: "Geometry \<Rightarrow> int \<Rightarrow> int"
    and geom :: Geometry and A :: SparseMatrix
  defines "s \<equiv> run_SetupHalo narrow getRankOfMatrixRow geom A"
  defines "R \<equiv> SetupHalo narrow getRankOfMatrixRow geom A"
  shows
   "(\<forall>p \<in> set (receiveList s). \<forall>g \<in> set (snd p). getRankOfMatrixRow geom g = fst p) \<and>
    (\<forall>p \<in> set (receiveList s). \<forall>q \<in> set (receiveList s).
        p \<noteq> q \<longrightarrow> set (snd p) \<inter> set (snd q) = {}) \<and>
    receiveLength R = map (\<lambda>p. Some (int (length (snd p)))) (receiveList s) \<and>
    sum_list (map (\<lambda>p. int (length (snd p))) (receiveList s)) = totalToBeReceived s \<and>
    totalToBeReceived s = int (card (remote_columns getRankOfMatrixRow geom A)) \<and>
    numberOfExternalValues R = int (card (narrow ` remote_columns getRankOfMatrixRow geom A)) \<and>
    (inj_on narrow (remote_columns getRankOfMatrixRow geom A) \<longrightarrow>
       numberOfExternalValues R = sum_list (map (\<lambda>p. int (length (snd p))) (receiveList s)) \<and>
       numberOfExternalValues R = totalToBeReceived s)"
proof -
  let ?RL = "receive_sets getRankOfMatrixRow geom A"
  let ?gs = "concat (map snd ?RL)"
  let ?S = "remote_columns getRankOfMatrixRow geom A"
  have "length ?gs = card (set ?gs)"
    using distinct_received [of getRankOfMatrixRow geom A] by (simp only: distinct_card)
  then have tot: "int (length ?gs) = int (card ?S)" by (simp only: set_received)
  have ext: "numberOfExternalValues R = int (card (narrow ` ?S))"
    unfolding R_def by (rule external_count)
  have eq: "numberOfExternalValues R = int (length ?gs)" if "inj_on narrow ?S"
    using that ext tot by (simp add: card_image)
  show ?thesis
    using receive_entry_owner(1) [of _ getRankOfMatrixRow geom A]
      receive_sets_disjoint [of _ getRankOfMatrixRow geom A] tot ext eq
    by (simp add: s_def R_def run_lists run_scalars SetupHalo_fields run_arrays
        int_length_concat_sets comp_def)
qed

lemma externals_total_example:
  "inj_on (\<lambda>g. g) (remote_columns fan_owner \<lparr>rank = 0\<rparr> fan_rank0) \<and>
   receiveLength (SetupHalo (\<lambda>g. g) fan_owner \<lparr>rank = 0\<rparr> fan_rank0) = [Some 2] \<and>
   numberOfExternalValues (SetupHalo (\<lambda>g. g) fan_owner \<lparr>rank = 0\<rparr> fan_rank0) = 2"
proof -
  let ?R = "SetupHalo (\<lambda>g. g) fan_owner \<lparr>rank = 0\<rparr> fan_rank0"
  have h: "inj_on (\<lambda>g. g) (remote_columns fan_owner \<lparr>rank = 0\<rparr> fan_rank0)" by simp
  have rl: "receiveList (run_SetupHalo (\<lambda>g. g) fan_owner \<lparr>rank = 0\<rparr> fan_rank0) = [(1, [1, 2])]"
    by code_simp
  note t = externals_total [of "\<lambda>g. g" fan_owner "\<lparr>rank = 0\<rparr>" fan_rank0]
  from t [THEN conjunct2, THEN conjunct2, THEN conjunct1, unfolded rl]
  have a: "receiveLength ?R = [Some 2]" by simp
  from t [THEN conjunct2, THEN conjunct2, THEN conjunct2, THEN conjunct2, THEN conjunct2,
      THEN conjunct2, THEN mp, OF h, THEN conjunct1, unfolded rl]
  have e: "numberOfExternalValues ?R = 2" by simp
  show ?thesis
    by (intro conjI) (fact h a e)+
qed

section \<open>The claims\<close>

text \<open>
  C1 does not hold of the code for every valid input. \<open>externalToLocalMap\<close> is declared
  \<open>std::map<local_int_t, local_int_t>\<close> (line 73), while the ids it is indexed with in
  lines 129 and 149 are \<open>global_int_t\<close> values, as the element type of the receive sets
  says. With a 32-bit \<open>local_int_t\<close> the valid system \<open>big_system\<close> makes rank 0 walk the
  remote ids 1 and \<open>2^32 + 1\<close>, which have the same key: the second assignment overwrites
  the first, so index 1 is bound to no column, index 2 stands for both columns, and 2 is
  not below \<open>localNumberOfColumns\<close>.
\<close>

theorem external_indices_collide:
  "valid_system fan_owner big_system \<and>
   receiveList (run_SetupHalo wrap32 fan_owner \<lparr>rank = 0\<rparr> big_rank0) = [(1, [1, 4294967297])] \<and>
   externalToLocalMap (run_SetupHalo wrap32 fan_owner \<lparr>rank = 0\<rparr> big_rank0) = [(1, 2)] \<and>
   mtxIndL (SetupHalo wrap32 fan_owner \<lparr>rank = 0\<rparr> big_rank0) = [[0, 2, 2]] \<and>
   localNumberOfRows big_rank0 = 1 \<and>
   numberOfExternalValues (SetupHalo wrap32 fan_owner \<lparr>rank = 0\<rparr> big_rank0) = 1 \<and>
   localNumberOfColumns (SetupHalo wrap32 fan_owner \<lparr>rank = 0\<rparr> big_rank0) = 2 \<and>
   snd ` set (externalToLocalMap (run_SetupHalo wrap32 fan_owner \<lparr>rank = 0\<rparr> big_rank0)) \<noteq>
     {localNumberOfRows big_rank0 ..<
      localNumberOfRows big_rank0 +
        numberOfExternalValues (SetupHalo wrap32 fan_owner \<lparr>rank = 0\<rparr> big_rank0)}"
  by code_simp

text \<open>
  C2. A valid input on which the local totals differ. In the sample system (two
  processes, structurally symmetric pattern, every process owning its rows) rank 0 sends
  one element and receives two, so the totals of \<open>sendLength\<close> and \<open>receiveLength\<close> differ
  on rank 0 and the assertions of the \<open>DEBUG\<close> build do not hold there, while what rank
  0 sends to rank 1 is what rank 1 receives from rank 0, and conversely.
\<close>

theorem local_totals_differ:
  "valid_system fan_owner fan_system \<and>
   sum_list (map the (sendLength (SetupHalo (\<lambda>g. g) fan_owner \<lparr>rank = 0\<rparr> fan_rank0))) \<noteq>
   sum_list (map the (receiveLength (SetupHalo (\<lambda>g. g) fan_owner \<lparr>rank = 0\<rparr> fan_rank0))) \<and>
   \<not> debug_assertions
       (sendList (run_SetupHalo (\<lambda>g. g) fan_owner \<lparr>rank = 0\<rparr> fan_rank0))
       (receiveList (run_SetupHalo (\<lambda>g. g) fan_owner \<lparr>rank = 0\<rparr> fan_rank0)) \<and>
   neighbors (SetupHalo (\<lambda>g. g) fan_owner \<lparr>rank = 0\<rparr> fan_rank0) = [Some 1] \<and>
   sendLength (SetupHalo (\<lambda>g. g) fan_owner \<lparr>rank = 0\<rparr> fan_rank0) = [Some 1] \<and>
   receiveLength (SetupHalo (\<lambda>g. g) fan_owner \<lparr>rank = 0\<rparr> fan_rank0) = [Some 2] \<and>
   neighbors (SetupHalo (\<lambda>g. g) fan_owner \<lparr>rank = 1\<rparr> fan_rank1) = [Some 0] \<and>
   sendLength (SetupHalo (\<lambda>g. g) fan_owner \<lparr>rank = 1\<rparr> fan_rank1) = [Some 2] \<and>
   receiveLength (SetupHalo (\<lambda>g. g) fan_owner \<lparr>rank = 1\<rparr> fan_rank1) = [Some 1]"
  by code_simp

text \<open>
  C3, as stated, does not hold: the setup has no failing path. On the sample with the
  stray column 7, which the resolver assigns to the local rank although
  \<open>globalToLocalMap\<close> has no such key, the setup returns a complete plan in which column
  7 has become local index 0.
\<close>

theorem absent_local_column_counterexample:
  "malformed_partition solo_owner \<lparr>rank = 0\<rparr> stray_matrix \<and>
   mtxIndL (SetupHalo (\<lambda>g. g) solo_owner \<lparr>rank = 0\<rparr> stray_matrix) = [[0, 1], [0, 1, 0]] \<and>
   neighbors (SetupHalo (\<lambda>g. g) solo_owner \<lparr>rank = 0\<rparr> stray_matrix) = [] \<and>
   numberOfSendNeighbors (SetupHalo (\<lambda>g. g) solo_owner \<lparr>rank = 0\<rparr> stray_matrix) = 0 \<and>
   numberOfExternalValues (SetupHalo (\<lambda>g. g) solo_owner \<lparr>rank = 0\<rparr> stray_matrix) = 0 \<and>
   localNumberOfColumns (SetupHalo (\<lambda>g. g) solo_owner \<lparr>rank = 0\<rparr> stray_matrix) = 2"
  by code_simp

text \<open>
  C3, amended. When the resolver names the local rank as owner of a column id that
  \<open>globalToLocalMap\<close> does not hold, the setup still returns a plan, with consistent
  counts, and that reference is rewritten to local index 0, the value a lookup of an
  absent key yields.
\<close>

theorem absent_local_column:
  fixes narrow :: "int \<Rightarrow> int" and getRankOfMatrixRow :: "Geometry \<Rightarrow> int \<Rightarrow> int"
    and geom :: Geometry and A :: SparseMatrix
  defines "R \<equiv> SetupHalo narrow getRankOfMatrixRow geom A"
  assumes "i < nat (localNumberOfRows A)" "j < nat (nonzerosInRow A ! i)"
    and "i < length (mtxIndL A)" "j < length (mtxIndL A ! i)"
    and "getRankOfMatrixRow geom (mtxIndG A ! i ! j) = rank geom"
    and "globalToLocalMap A (mtxIndG A ! i ! j) = None"
  shows "malformed_partition getRankOfMatrixRow geom A \<and>
    mtxIndL R ! i ! j = 0 \<and>
    localNumberOfColumns R = localNumberOfRows A + numberOfExternalValues R \<and>
    numberOfSendNeighbors R = int (length (neighbors R)) \<and>
    length (sendLength R) = length (neighbors R) \<and>
    length (receiveLength R) = length (neighbors R) \<and>
    int (length (elementsToSend R)) = totalToBeSent R"
proof -
  have "(localToGlobalMap A ! i, mtxIndG A ! i ! j) \<in> set (references A)"
    using assms(2,3) by (rule reference_at)
  then have m: "malformed_partition getRankOfMatrixRow geom A"
    using assms(6,7) unfolding malformed_partition_def list_ex_iff
    by (intro bexI [of _ "(localToGlobalMap A ! i, mtxIndG A ! i ! j)"]) simp_all
  have z: "mtxIndL R ! i ! j = 0"
    using rewritten_entry [OF assms(2-5), of narrow getRankOfMatrixRow geom] assms(6,7)
    by (simp add: R_def SetupHalo_fields local_index_def g2l_at_def)
  have len: "length (send_sets getRankOfMatrixRow geom A) = length (receive_sets getRankOfMatrixRow geom A)"
    using keys_send_receive [of getRankOfMatrixRow geom A] by (metis length_map)
  show ?thesis
    using m z len by (simp add: R_def SetupHalo_fields run_scalars run_arrays)
qed

theorem absent_local_column_witness:
  "(1::nat) < nat (localNumberOfRows stray_matrix) \<and>
   (2::nat) < nat (nonzerosInRow stray_matrix ! 1) \<and>
   solo_owner \<lparr>rank = 0\<rparr> (mtxIndG stray_matrix ! 1 ! 2) = rank \<lparr>rank = 0\<rparr> \<and>
   globalToLocalMap stray_matrix (mtxIndG stray_matrix ! 1 ! 2) = None \<and>
   mtxIndL (SetupHalo (\<lambda>g. g) solo_owner \<lparr>rank = 0\<rparr> stray_matrix) ! 1 ! 2 = 0"
proof -
  have h: "(1::nat) < nat (localNumberOfRows stray_matrix)"
    "(2::nat) < nat (nonzerosInRow stray_matrix ! 1)"
    "(1::nat) < length (mtxIndL stray_matrix)"
    "(2::nat) < length (mtxIndL stray_matrix ! 1)"
    "solo_owner \<lparr>rank = 0\<rparr> (mtxIndG stray_matrix ! 1 ! 2) = rank \<lparr>rank = 0\<rparr>"
    by code_simp+
  have g: "globalToLocalMap stray_matrix (mtxIndG stray_matrix ! 1 ! 2) = None"
    by (simp add: stray_matrix_def blank_def)
  from absent_local_column [where narrow = "\<lambda>g. g" and getRankOfMatrixRow = solo_owner
      and geom = "\<lparr>rank = 0\<rparr>" and A = stray_matrix and i = 1 and j = 2, OF h g] h g
  show ?thesis by blast
qed

text \<open>
  C4. The dependency scan. Visiting a reference to a column owned by another rank adds
  the column id to the receive set of that rank and the global id of the row to the
  send set of the same rank, and leaves the sets of all other ranks as they were;
  visiting a reference to a column of the local rank changes nothing. The scan visits
  the references of the local rows in order, and after it the receive set of a rank is
  the set of remote column ids that rank owns, the send set of a rank is the set of the
  global ids of the rows that reference a column it owns, both strictly ascending, hence
  free of duplicates.
\<close>

theorem dependency_scan:
  fixes getRankOfMatrixRow :: "Geometry \<Rightarrow> int \<Rightarrow> int" and geom :: Geometry
    and A :: SparseMatrix and s :: halo_run and currentGlobalRow curIndex :: int
  defines "s' \<equiv> scan_entry (rank geom) currentGlobalRow curIndex (getRankOfMatrixRow geom curIndex) s"
  defines "t \<equiv> scan_rows getRankOfMatrixRow geom (enter A)"
  shows
   "(sorted_wrt (<) (map fst (receiveList s)) \<and> sorted_wrt (<) (map fst (sendList s)) \<and>
     getRankOfMatrixRow geom curIndex \<noteq> rank geom \<longrightarrow>
       (\<forall>k. set (map_at [] k (receiveList s')) =
          (if k = getRankOfMatrixRow geom curIndex
           then insert curIndex (set (map_at [] k (receiveList s)))
           else set (map_at [] k (receiveList s)))) \<and>
       (\<forall>k. set (map_at [] k (sendList s')) =
          (if k = getRankOfMatrixRow geom curIndex
           then insert currentGlobalRow (set (map_at [] k (sendList s)))
           else set (map_at [] k (sendList s))))) \<and>
    (getRankOfMatrixRow geom curIndex = rank geom \<longrightarrow> s' = s) \<and>
    t = fold (\<lambda>p. scan_entry (rank geom) (fst p) (snd p) (getRankOfMatrixRow geom (snd p)))
          (references A) (enter A) \<and>
    (\<forall>k. set (map_at [] k (receiveList t)) =
            {g \<in> remote_columns getRankOfMatrixRow geom A. getRankOfMatrixRow geom g = k} \<and>
         sorted_wrt (<) (map_at [] k (receiveList t)) \<and>
         set (map_at [] k (sendList t)) =
            fst ` {p \<in> set (remote_references getRankOfMatrixRow geom A).
                     getRankOfMatrixRow geom (snd p) = k} \<and>
         sorted_wrt (<) (map_at [] k (sendList t)))"
proof (intro conjI impI allI)
  assume "sorted_wrt (<) (map fst (receiveList s)) \<and> sorted_wrt (<) (map fst (sendList s)) \<and>
     getRankOfMatrixRow geom curIndex \<noteq> rank geom"
  then have srt: "sorted_wrt (<) (map fst (receiveList s))" "sorted_wrt (<) (map fst (sendList s))"
    and rem: "getRankOfMatrixRow geom curIndex \<noteq> rank geom" by simp_all
  fix k
  show "set (map_at [] k (receiveList s')) =
          (if k = getRankOfMatrixRow geom curIndex
           then insert curIndex (set (map_at [] k (receiveList s)))
           else set (map_at [] k (receiveList s)))"
    using srt rem by (simp add: s'_def scan_entry_def map_at_map_modify set_set_insert)
  show "set (map_at [] k (sendList s')) =
          (if k = getRankOfMatrixRow geom curIndex
           then insert currentGlobalRow (set (map_at [] k (sendList s)))
           else set (map_at [] k (sendList s)))"
    using srt rem by (simp add: s'_def scan_entry_def map_at_map_modify set_set_insert)
next
  assume "getRankOfMatrixRow geom curIndex = rank geom"
  then show "s' = s" by (simp add: s'_def scan_entry_def)
next
  show "t = fold (\<lambda>p. scan_entry (rank geom) (fst p) (snd p) (getRankOfMatrixRow geom (snd p)))
          (references A) (enter A)"
    by (simp add: t_def scan_rows_as_references)
next
  fix k
  show "set (map_at [] k (receiveList t)) =
            {g \<in> remote_columns getRankOfMatrixRow geom A. getRankOfMatrixRow geom g = k}"
    by (simp add: t_def scan_rows_enter receive_set_of_rank)
  show "sorted_wrt (<) (map_at [] k (receiveList t))"
    by (simp add: t_def scan_rows_enter sorted_map_at wf_receive_sets)
  show "set (map_at [] k (sendList t)) =
            fst ` {p \<in> set (remote_references getRankOfMatrixRow geom A).
                     getRankOfMatrixRow geom (snd p) = k}"
    by (simp add: t_def scan_rows_enter send_set_of_rank)
  show "sorted_wrt (<) (map_at [] k (sendList t))"
    by (simp add: t_def scan_rows_enter sorted_map_at wf_send_sets)
qed

theorem dependency_scan_witness:
  "sorted_wrt (<) (map fst (receiveList (enter fan_rank0))) \<and>
   sorted_wrt (<) (map fst (sendList (enter fan_rank0))) \<and>
   fan_owner \<lparr>rank = 0\<rparr> 2 \<noteq> rank \<lparr>rank = 0\<rparr> \<and>
   set (map_at [] 1 (receiveList (scan_entry 0 0 2 1 (enter fan_rank0)))) = {2} \<and>
   set (map_at [] 1 (sendList (scan_entry 0 0 2 1 (enter fan_rank0)))) = {0} \<and>
   fan_owner \<lparr>rank = 0\<rparr> 0 = rank \<lparr>rank = 0\<rparr> \<and>
   scan_entry 0 0 0 0 (enter fan_rank0) = enter fan_rank0"
proof -
  have h: "sorted_wrt (<) (map fst (receiveList (enter fan_rank0))) \<and>
      sorted_wrt (<) (map fst (sendList (enter fan_rank0))) \<and>
      fan_owner \<lparr>rank = 0\<rparr> 2 \<noteq> rank \<lparr>rank = 0\<rparr>"
    by (simp add: fan_owner_def)
  have o: "fan_owner \<lparr>rank = 0\<rparr> 2 = 1" "fan_owner \<lparr>rank = 0\<rparr> 0 = 0" "rank \<lparr>rank = 0\<rparr> = 0"
    by (simp_all add: fan_owner_def)
  have l: "fan_owner \<lparr>rank = 0\<rparr> 0 = rank \<lparr>rank = 0\<rparr>" by (simp add: fan_owner_def)
  note t = dependency_scan [where s = "enter fan_rank0" and getRankOfMatrixRow = fan_owner
      and geom = "\<lparr>rank = 0\<rparr>" and currentGlobalRow = 0 and A = fan_rank0]
  from t [where curIndex = 2] h
  have "set (map_at [] 1 (receiveList (scan_entry 0 0 2 1 (enter fan_rank0)))) =
      insert 2 (set (map_at [] 1 (receiveList (enter fan_rank0))))"
    and "set (map_at [] 1 (sendList (scan_entry 0 0 2 1 (enter fan_rank0)))) =
      insert 0 (set (map_at [] 1 (sendList (enter fan_rank0))))"
    unfolding o by simp_all
  then have a: "set (map_at [] 1 (receiveList (scan_entry 0 0 2 1 (enter fan_rank0)))) = {2}"
    "set (map_at [] 1 (sendList (scan_entry 0 0 2 1 (enter fan_rank0)))) = {0}"
    by simp_all
  from t [where curIndex = 0] l
  have b: "scan_entry 0 0 0 0 (enter fan_rank0) = enter fan_rank0" unfolding o by blast
  from h l a b show ?thesis by blast
qed

text \<open>
  C5. \<open>elementsToSend\<close> is the sequence of the global row ids of the send sets, taken
  entry by entry in the order of \<open>neighbors\<close> (ascending rank) and within an entry in
  ascending order, each looked up in \<open>globalToLocalMap\<close>; its length is
  \<open>totalToBeSent\<close>, the sum of \<open>sendLength\<close>; the transfer buffer has \<open>totalToBeSent\<close>
  cells, none of them written. When \<open>globalToLocalMap\<close> maps the global id of every
  local row to its index, every element is a local row index.
\<close>

theorem elements_to_send:
  fixes narrow :: "int \<Rightarrow> int" and getRankOfMatrixRow :: "Geometry \<Rightarrow> int \<Rightarrow> int"
    and geom :: Geometry and A :: SparseMatrix
  defines "SL \<equiv> sendList (run_SetupHalo narrow getRankOfMatrixRow geom A)"
  defines "R \<equiv> SetupHalo narrow getRankOfMatrixRow geom A"
  shows
   "elementsToSend R = map (\<lambda>g. Some (g2l_at (globalToLocalMap A) g)) (concat (map snd SL)) \<and>
    neighbors R = map (\<lambda>p. Some (fst p)) SL \<and>
    sendLength R = map (\<lambda>p. Some (int (length (snd p)))) SL \<and>
    sorted_wrt (<) (map fst SL) \<and>
    list_all (\<lambda>p. sorted_wrt (<) (snd p)) SL \<and>
    int (length (elementsToSend R)) = totalToBeSent R \<and>
    totalToBeSent R = sum_list (map (\<lambda>p. int (length (snd p))) SL) \<and>
    sendBuffer R = replicate (nat (totalToBeSent R)) None \<and>
    (list_all (\<lambda>i. globalToLocalMap A (localToGlobalMap A ! i) = Some (int i))
        [0..<nat (localNumberOfRows A)] \<longrightarrow>
     list_all (\<lambda>e. \<exists>i < nat (localNumberOfRows A). e = Some (int i)) (elementsToSend R))"
proof -
  let ?SL = "send_sets getRankOfMatrixRow geom A"
  have SL: "SL = ?SL" by (simp add: SL_def run_lists)
  have keys: "map fst ?SL = map fst (receive_sets getRankOfMatrixRow geom A)"
    by (rule keys_send_receive)
  have n: "neighbors R = map (\<lambda>p. Some (fst p)) ?SL"
    using arg_cong [OF keys, of "map Some"] by (simp add: R_def SetupHalo_fields run_arrays comp_def)
  have w: "list_all (\<lambda>p. sorted_wrt (<) (snd p)) ?SL"
    using wf_send_sets [of getRankOfMatrixRow geom A] by (simp add: wf_sets_def list_all_iff)
  have tot: "int (length (concat (map snd ?SL))) = sum_list (map (\<lambda>p. int (length (snd p))) ?SL)"
    by (rule int_length_concat_sets)
  have loc: "list_all (\<lambda>e. \<exists>i < nat (localNumberOfRows A). e = Some (int i)) (elementsToSend R)"
    if h: "list_all (\<lambda>i. globalToLocalMap A (localToGlobalMap A ! i) = Some (int i))
        [0..<nat (localNumberOfRows A)]"
  proof -
    have "\<exists>i < nat (localNumberOfRows A). g2l_at (globalToLocalMap A) g = int i"
      if "g \<in> set (concat (map snd ?SL))" for g
    proof -
      from send_rows_local [OF that] obtain i where
        i: "i < nat (localNumberOfRows A)" "g = localToGlobalMap A ! i" by auto
      with h have "globalToLocalMap A g = Some (int i)" by (simp add: list_all_iff)
      then have "g2l_at (globalToLocalMap A) g = int i" by (simp add: g2l_at_def)
      with i show ?thesis by auto
    qed
    then show ?thesis
      unfolding R_def SetupHalo_fields run_arrays list_all_iff by auto
  qed
  show ?thesis
    unfolding SL
    using n w tot loc wf_sets_keys [OF wf_send_sets, of getRankOfMatrixRow geom A]
    by (simp add: R_def SetupHalo_fields run_arrays run_scalars comp_def)
qed

theorem elements_to_send_witness:
  "list_all (\<lambda>i. globalToLocalMap fan_rank1 (localToGlobalMap fan_rank1 ! i) = Some (int i))
     [0..<nat (localNumberOfRows fan_rank1)] \<and>
   elementsToSend (SetupHalo (\<lambda>g. g) fan_owner \<lparr>rank = 1\<rparr> fan_rank1) = [Some 0, Some 1] \<and>
   list_all (\<lambda>e. \<exists>i < nat (localNumberOfRows fan_rank1). e = Some (int i))
     (elementsToSend (SetupHalo (\<lambda>g. g) fan_owner \<lparr>rank = 1\<rparr> fan_rank1)) \<and>
   sendBuffer (SetupHalo (\<lambda>g. g) fan_owner \<lparr>rank = 1\<rparr> fan_rank1) = [None, None]"
proof -
  let ?R = "SetupHalo (\<lambda>g. g) fan_owner \<lparr>rank = 1\<rparr> fan_rank1"
  have h: "list_all (\<lambda>i. globalToLocalMap fan_rank1 (localToGlobalMap fan_rank1 ! i) = Some (int i))
     [0..<nat (localNumberOfRows fan_rank1)]"
    by code_simp
  have sl: "sendList (run_SetupHalo (\<lambda>g. g) fan_owner \<lparr>rank = 1\<rparr> fan_rank1) = [(0, [1, 2])]"
    by code_simp
  have g: "g2l_at (globalToLocalMap fan_rank1) 1 = 0" "g2l_at (globalToLocalMap fan_rank1) 2 = 1"
    by (simp_all add: fan_rank1_def blank_def g2l_at_def)
  note t = elements_to_send [of "\<lambda>g. g" fan_owner "\<lparr>rank = 1\<rparr>" fan_rank1, unfolded sl]
  from t have e: "elementsToSend ?R = [Some 0, Some 1]" by (simp add: g)
  from t h have l: "list_all (\<lambda>e. \<exists>i < nat (localNumberOfRows fan_rank1). e = Some (int i))
     (elementsToSend ?R)" by blast
  from t have "totalToBeSent ?R = 2" by simp
  with t have b: "sendBuffer ?R = [None, None]" by (simp add: numeral_2_eq_2)
  from h e l b show ?thesis by blast
qed

text \<open>
  C6. \<open>neighbors\<close> is the ascending list of the ranks that own a referenced remote
  column: strictly ascending, no rank twice. It is a function of that set of ranks alone:
  two matrices with the same set of neighbour ranks get the same \<open>neighbors\<close>, in
  whatever order their references are stored.
\<close>

theorem neighbors_ascending:
  "neighbors (SetupHalo narrow getRankOfMatrixRow geom A) =
     map Some (sorted_list_of_set (neighbor_ranks getRankOfMatrixRow geom A)) \<and>
   sorted_wrt (<) (map the (neighbors (SetupHalo narrow getRankOfMatrixRow geom A))) \<and>
   distinct (neighbors (SetupHalo narrow getRankOfMatrixRow geom A)) \<and>
   (\<forall>B :: SparseMatrix.
      neighbor_ranks getRankOfMatrixRow geom B = neighbor_ranks getRankOfMatrixRow geom A \<longrightarrow>
      neighbors (SetupHalo narrow getRankOfMatrixRow geom B) =
      neighbors (SetupHalo narrow getRankOfMatrixRow geom A))"
proof -
  let ?ks = "sorted_list_of_set (neighbor_ranks getRankOfMatrixRow geom A)"
  have n: "neighbors (SetupHalo narrow getRankOfMatrixRow geom B) =
      map Some (sorted_list_of_set (neighbor_ranks getRankOfMatrixRow geom B))"
    for B :: SparseMatrix
    by (simp add: SetupHalo_fields run_arrays keys_receive_sets_sorted_list)
  have s: "sorted_wrt (<) ?ks"
    using sorted_keys_receive_sets [of getRankOfMatrixRow geom A]
    by (simp add: keys_receive_sets_sorted_list)
  then have "distinct ?ks" by (simp add: strict_sorted_iff)
  then have "distinct (map Some ?ks)" by (simp add: distinct_map)
  moreover have "map the (map Some ?ks) = ?ks" by (simp add: comp_def)
  ultimately show ?thesis using n s by simp
qed

theorem neighbors_ascending_witness:
  "neighbor_ranks fan_owner \<lparr>rank = 1\<rparr> (fan_rank1\<lparr>mtxIndG := [[1, 0], [2, 0]]\<rparr>) =
     neighbor_ranks fan_owner \<lparr>rank = 1\<rparr> fan_rank1 \<and>
   neighbors (SetupHalo (\<lambda>g. g) fan_owner \<lparr>rank = 1\<rparr> (fan_rank1\<lparr>mtxIndG := [[1, 0], [2, 0]]\<rparr>)) =
     neighbors (SetupHalo (\<lambda>g. g) fan_owner \<lparr>rank = 1\<rparr> fan_rank1)"
proof -
  have h: "neighbor_ranks fan_owner \<lparr>rank = 1\<rparr> (fan_rank1\<lparr>mtxIndG := [[1, 0], [2, 0]]\<rparr>) =
     neighbor_ranks fan_owner \<lparr>rank = 1\<rparr> fan_rank1"
    by code_simp
  from neighbors_ascending [of "\<lambda>g. g" fan_owner "\<lparr>rank = 1\<rparr>" fan_rank1] h
  show ?thesis by blast
qed

text \<open>
  C7. After setup, \<open>localNumberOfColumns\<close> is \<open>localNumberOfRows\<close> plus
  \<open>numberOfExternalValues\<close>, for every input; the number of rows is the one of the
  input.
\<close>

theorem columns_count:
  "localNumberOfColumns (SetupHalo narrow getRankOfMatrixRow geom A) =
     localNumberOfRows (SetupHalo narrow getRankOfMatrixRow geom A) +
     numberOfExternalValues (SetupHalo narrow getRankOfMatrixRow geom A) \<and>
   localNumberOfRows (SetupHalo narrow getRankOfMatrixRow geom A) = localNumberOfRows A"
  by (simp add: SetupHalo_fields run_scalars)

text \<open>
  C8. When the resolver names the local rank for every referenced column, the plan has
  no neighbour, no external value and nothing to send, its arrays are empty, and every
  stored column id is rewritten to what \<open>globalToLocalMap\<close> holds for it.
\<close>

theorem all_columns_local:
  fixes narrow :: "int \<Rightarrow> int" and getRankOfMatrixRow :: "Geometry \<Rightarrow> int \<Rightarrow> int"
    and geom :: Geometry and A :: SparseMatrix
  defines "R \<equiv> SetupHalo narrow getRankOfMatrixRow geom A"
  assumes "list_all (\<lambda>p. getRankOfMatrixRow geom (snd p) = rank geom) (references A)"
  shows
   "numberOfSendNeighbors R = 0 \<and> numberOfExternalValues R = 0 \<and> totalToBeSent R = 0 \<and>
    neighbors R = [] \<and> receiveLength R = [] \<and> sendLength R = [] \<and>
    elementsToSend R = [] \<and> sendBuffer R = [] \<and>
    localNumberOfColumns R = localNumberOfRows A \<and>
    (\<forall>i j. i < nat (localNumberOfRows A) \<and> j < nat (nonzerosInRow A ! i) \<and>
           i < length (mtxIndL A) \<and> j < length (mtxIndL A ! i) \<longrightarrow>
       mtxIndL R ! i ! j = g2l_at (globalToLocalMap A) (mtxIndG A ! i ! j))"
proof -
  note empty = all_local_sets [of getRankOfMatrixRow geom A, OF assms(2)]
  have rew: "mtxIndL R ! i ! j = g2l_at (globalToLocalMap A) (mtxIndG A ! i ! j)"
    if "i < nat (localNumberOfRows A)" "j < nat (nonzerosInRow A ! i)"
      "i < length (mtxIndL A)" "j < length (mtxIndL A ! i)" for i j
  proof -
    have "(localToGlobalMap A ! i, mtxIndG A ! i ! j) \<in> set (references A)"
      using that(1,2) by (rule reference_at)
    with assms(2) have "getRankOfMatrixRow geom (mtxIndG A ! i ! j) = rank geom"
      by (auto simp: list_all_iff)
    then show ?thesis
      using rewritten_entry [OF that, of narrow getRankOfMatrixRow geom]
      by (simp add: R_def SetupHalo_fields local_index_def)
  qed
  show ?thesis
    using rew by (simp add: R_def SetupHalo_fields run_arrays run_scalars run_lists empty)
qed

theorem all_columns_local_witness:
  "list_all (\<lambda>p. solo_owner \<lparr>rank = 0\<rparr> (snd p) = rank \<lparr>rank = 0\<rparr>) (references solo_matrix) \<and>
   neighbors (SetupHalo (\<lambda>g. g) solo_owner \<lparr>rank = 0\<rparr> solo_matrix) = [] \<and>
   numberOfExternalValues (SetupHalo (\<lambda>g. g) solo_owner \<lparr>rank = 0\<rparr> solo_matrix) = 0 \<and>
   mtxIndL (SetupHalo (\<lambda>g. g) solo_owner \<lparr>rank = 0\<rparr> solo_matrix) ! 1 ! 0 = 0"
proof -
  have h: "list_all (\<lambda>p. solo_owner \<lparr>rank = 0\<rparr> (snd p) = rank \<lparr>rank = 0\<rparr>) (references solo_matrix)"
    by code_simp
  have b: "(1::nat) < nat (localNumberOfRows solo_matrix) \<and>
      (0::nat) < nat (nonzerosInRow solo_matrix ! 1) \<and>
      (1::nat) < length (mtxIndL solo_matrix) \<and> (0::nat) < length (mtxIndL solo_matrix ! 1)"
    by code_simp
  have g: "g2l_at (globalToLocalMap solo_matrix) (mtxIndG solo_matrix ! 1 ! 0) = 0"
    by (simp add: solo_matrix_def blank_def g2l_at_def)
  note t = all_columns_local [where narrow = "\<lambda>g. g" and getRankOfMatrixRow = solo_owner
      and geom = "\<lparr>rank = 0\<rparr>" and A = solo_matrix, OF h]
  from t b have "mtxIndL (SetupHalo (\<lambda>g. g) solo_owner \<lparr>rank = 0\<rparr> solo_matrix) ! 1 ! 0 =
      g2l_at (globalToLocalMap solo_matrix) (mtxIndG solo_matrix ! 1 ! 0)" by blast
  with g have "mtxIndL (SetupHalo (\<lambda>g. g) solo_owner \<lparr>rank = 0\<rparr> solo_matrix) ! 1 ! 0 = 0" by simp
  with t h show ?thesis by blast
qed

text \<open>
  C9. The ranks with a non-empty send set are the ranks with a non-empty receive set,
  for every input; the three arrays of the plan have one cell per neighbour, and for
  every neighbour both \<open>sendLength\<close> and \<open>receiveLength\<close> are at least 1.
\<close>

theorem neighbors_two_way:
  fixes narrow :: "int \<Rightarrow> int" and getRankOfMatrixRow :: "Geometry \<Rightarrow> int \<Rightarrow> int"
    and geom :: Geometry and A :: SparseMatrix
  defines "s \<equiv> run_SetupHalo narrow getRankOfMatrixRow geom A"
  defines "R \<equiv> SetupHalo narrow getRankOfMatrixRow geom A"
  shows "{k. map_at [] k (sendList s) \<noteq> []} = {k. map_at [] k (receiveList s) \<noteq> []} \<and>
    map fst (sendList s) = map fst (receiveList s) \<and>
    length (sendLength R) = length (neighbors R) \<and>
    length (receiveLength R) = length (neighbors R) \<and>
    (\<forall>i < length (neighbors R).
       \<exists>a b. sendLength R ! i = Some a \<and> receiveLength R ! i = Some b \<and> 1 \<le> a \<and> 1 \<le> b)"
proof -
  let ?RL = "receive_sets getRankOfMatrixRow geom A" and ?SL = "send_sets getRankOfMatrixRow geom A"
  have keys: "map fst ?SL = map fst ?RL" by (rule keys_send_receive)
  then have ks: "fst ` set ?SL = fst ` set ?RL" by (metis set_map)
  have len: "length ?SL = length ?RL" using keys by (metis length_map)
  have ne: "{k. map_at [] k ?SL \<noteq> []} = {k. map_at [] k ?RL \<noteq> []}"
    using nonempty_entries [OF wf_send_sets, of getRankOfMatrixRow geom A]
      nonempty_entries [OF wf_receive_sets, of getRankOfMatrixRow geom A] ks by simp
  have pos: "\<exists>a b. sendLength R ! i = Some a \<and> receiveLength R ! i = Some b \<and> 1 \<le> a \<and> 1 \<le> b"
    if "i < length (neighbors R)" for i
  proof -
    from that have i: "i < length ?RL" "i < length ?SL"
      by (simp_all add: R_def SetupHalo_fields run_arrays len)
    then have "snd (?SL ! i) \<noteq> []" "snd (?RL ! i) \<noteq> []"
      using wf_sets_nonempty [OF wf_send_sets, of "?SL ! i" getRankOfMatrixRow geom A]
        wf_sets_nonempty [OF wf_receive_sets, of "?RL ! i" getRankOfMatrixRow geom A]
      by simp_all
    then have "1 \<le> int (length (snd (?SL ! i)))" "1 \<le> int (length (snd (?RL ! i)))"
      by (simp_all add: Suc_le_eq)
    with i show ?thesis by (simp add: R_def SetupHalo_fields run_arrays)
  qed
  show ?thesis
    using ne keys pos by (simp add: s_def R_def SetupHalo_fields run_arrays run_lists len)
qed

theorem neighbors_two_way_witness:
  "(0::nat) < length (neighbors (SetupHalo (\<lambda>g. g) fan_owner \<lparr>rank = 0\<rparr> fan_rank0)) \<and>
   (\<exists>a b. sendLength (SetupHalo (\<lambda>g. g) fan_owner \<lparr>rank = 0\<rparr> fan_rank0) ! 0 = Some a \<and>
          receiveLength (SetupHalo (\<lambda>g. g) fan_owner \<lparr>rank = 0\<rparr> fan_rank0) ! 0 = Some b \<and>
          1 \<le> a \<and> 1 \<le> b)"
proof -
  have h: "(0::nat) < length (neighbors (SetupHalo (\<lambda>g. g) fan_owner \<lparr>rank = 0\<rparr> fan_rank0))"
    by code_simp
  from neighbors_two_way [of "\<lambda>g. g" fan_owner "\<lparr>rank = 0\<rparr>" fan_rank0] h
  show ?thesis by blast
qed

text \<open>
  C10 does not hold of the code for every input with a resolver that is a function. On
  rank 0 of \<open>big_system\<close>, with a 32-bit \<open>local_int_t\<close>, the one receive set has two
  column ids, so \<open>receiveLength\<close> sums to 2 and \<open>totalToBeReceived\<close> is 2, while the two
  ids share one key of \<open>externalToLocalMap\<close> and \<open>numberOfExternalValues\<close> is 1.
\<close>

theorem externals_total_collide:
  "valid_system fan_owner big_system \<and>
   receiveLength (SetupHalo wrap32 fan_owner \<lparr>rank = 0\<rparr> big_rank0) = [Some 2] \<and>
   totalToBeReceived (run_SetupHalo wrap32 fan_owner \<lparr>rank = 0\<rparr> big_rank0) = 2 \<and>
   numberOfExternalValues (SetupHalo wrap32 fan_owner \<lparr>rank = 0\<rparr> big_rank0) = 1 \<and>
   numberOfExternalValues (SetupHalo wrap32 fan_owner \<lparr>rank = 0\<rparr> big_rank0) \<noteq>
     sum_list (map the (receiveLength (SetupHalo wrap32 fan_owner \<lparr>rank = 0\<rparr> big_rank0)))"
  by code_simp

end
